theory Spec2Isabelle
  imports Main "HOL-Library.Word" "HOL-Library.AList" "HOL-Library.Multiset"
begin

unbundle bit_operations_syntax

section \<open>Completion tags\<close>

text \<open>
  A completion tag is the \<open>uint64\<close> user data of a ring entry. Descriptors are Go
  \<open>int\<close> values (64 bits wide on the Linux targets of the rings); \<open>uint64(fd)\<close> is
  \<open>word_of_int\<close> and \<open>int(tag)\<close> is \<open>sint\<close>.
\<close>

type_synonym userdata = "64 word"

text \<open>
  Modelled from the spec: the declarations of the constants \<open>acceptDataFlag\<close>,
  \<open>addConnFlag\<close>, \<open>closeConnFlag\<close>, \<open>writeDataFlag\<close> and \<open>allFlagsMask\<close> are not
  part of the sources. The spec describes them as "reserved high bits of the 64-bit
  completion tag identifying the operation kind (accept, added-connection, close,
  write-data)", "mutually exclusive, encoded in high bits", the low bits holding the
  descriptor. Each flag is one bit, taken from the top of the word in the order in which
  the spec lists them, and the mask is their union.
\<close>

definition acceptDataFlag :: userdata where
  "acceptDataFlag = push_bit 63 1"

definition addConnFlag :: userdata where
  "addConnFlag = push_bit 62 1"

definition closeConnFlag :: userdata where
  "closeConnFlag = push_bit 61 1"

definition writeDataFlag :: userdata where
  "writeDataFlag = push_bit 60 1"

definition allFlagsMask :: userdata where
  "allFlagsMask = acceptDataFlag OR addConnFlag OR closeConnFlag OR writeDataFlag"

definition definedFlags :: "userdata list" where
  "definedFlags = [acceptDataFlag, addConnFlag, closeConnFlag, writeDataFlag]"

text \<open>
  \<open>entry.UserData = acceptDataFlag | uint64(a.fd)\<close> in \<open>addAcceptRequest\<close>: a flag
  combined with a descriptor.
\<close>

definition composeTag :: "userdata \<Rightarrow> int \<Rightarrow> userdata" where
  "composeTag flag fd = flag OR word_of_int fd"

text \<open>\<open>cqe.UserData() & flag > 0\<close>, the test of \<open>handleConn\<close> and of the loop.\<close>

definition hasFlag :: "userdata \<Rightarrow> userdata \<Rightarrow> bool" where
  "hasFlag tag flag = (tag AND flag > 0)"

text \<open>\<open>int(cqe.UserData() & ^allFlagsMask)\<close>, the plain descriptor of a tag.\<close>

definition plainFd :: "userdata \<Rightarrow> int" where
  "plainFd tag = sint (tag AND NOT allFlagsMask)"

text \<open>
  A descriptor the kernel can hand out: a non-negative C \<open>int\<close>.
\<close>

definition validFd :: "int \<Rightarrow> bool" where
  "validFd d = (0 \<le> d \<and> d < 2 ^ 31)"


section \<open>Errors, connections and completion events\<close>

text \<open>
  The state of a connection is an integer type in Go; the four named states of the
  sources and any other value of the type.
\<close>

datatype connectionState = connAccept | connRead | connWrite | connClose | connOther int

text \<open>
  The errors the sources construct or name: \<open>iouring.ErrSQEOverflow\<close>, the wrapping
  \<open>fmt.Errorf("error getting SQE: %w", err)\<close>, the sentinel and formatted errors of
  \<open>pkg/errors\<close>, and any error returned by a collaborator.
\<close>

datatype error =
    ErrSQEOverflow
  | ErrorGettingSQE error
  | ErrConnectionIsMissing
  | ErrorConnectionIsMissing int
  | ErrorAddressNotFound int
  | ErrorUnknownConnectionState connectionState
  | ErrConnectionQueueIsNil
  | ErrOther string

text \<open>
  A \<open>net.Addr\<close> is an interface value: \<open>None\<close> is \<open>nil\<close>, \<open>Some a\<close> an address
  written as text. The field \<open>userSpace\<close> is the indicator of the spec's data model:
  whether the buffers of the connection are owned by user code or by the kernel.
\<close>

type_synonym netAddr = "string option"

record connection =
  fd :: int
  state :: connectionState
  localAddr :: netAddr
  remoteAddr :: netAddr
  userSpace :: bool

text \<open>
  A completion queue event: \<open>Res()\<close> is an \<open>int32\<close>, \<open>UserData()\<close> the echoed tag.
\<close>

record completionQueueEvent =
  res :: "32 word"
  userData :: userdata

text \<open>
  The sources call functions of the repository that are not among them (the logger, the
  event handler, \<open>closeConn\<close>, \<open>addNextRequest\<close>, \<open>addCloseConnRequest\<close>,
  \<open>onRead\<close>, \<open>onKernelWrite\<close>, \<open>syscallCloseSocket\<close>, \<open>notifyFinish\<close>,
  \<open>handleAsyncWritesIfEnabled\<close>). Every such call is recorded, in call order and with
  its arguments, in the trace of the worker. A connection argument is a pointer; it is
  recorded as the registry key under which the connection is tracked.
\<close>

datatype event =
    LogError "error option" string
  | LogErrorFd int string
  | LogWarn string
  | LogInfo string
  | LogDebugBytesWrited int int
  | OnReadCall int
  | OnKernelWrite int int
  | OnWrite int int
  | OnAccept int
  | AddNextRequest int
  | AddCloseConnRequest int
  | CloseConn int bool "error option"
  | SyscallCloseSocket int
  | HandleAsyncWritesIfEnabled
  | StartedChanSend
  | NotifyFinish

text \<open>
  The consumer worker. \<open>connections\<close> is the connection registry
  (\<open>connectionManager\<close>), an association list from key to connection object: it is the
  store the \<open>*connection\<close> pointers point into. \<open>socketAddresses\<close> is the
  \<open>sync.Map\<close> from descriptor to remote address, \<open>connQueue\<close> the fallback queue
  (\<open>None\<close> is the \<open>nil\<close> queue of a worker with ring messaging).
\<close>

record consumerWorker =
  connections :: "(int \<times> connection) list"
  socketAddresses :: "int \<rightharpoonup> netAddr"
  connQueue :: "int list option"
  workerLocalAddr :: netAddr
  shutdownRequested :: bool
  shutdownInProgress :: bool
  trace :: "event list"

text \<open>
  The results of the absent functions that return one are supplied by an environment;
  a result may depend on the whole state of the worker at the call.
  \<open>processEvent\<close> receives the event and the value of its callback (the callback of the
  loop has no effect of its own).
\<close>

record env =
  processEvent :: "completionQueueEvent \<Rightarrow> bool \<Rightarrow> bool"
  onRead :: "completionQueueEvent \<Rightarrow> int \<Rightarrow> consumerWorker \<Rightarrow> error option"
  addNextRequest :: "int \<Rightarrow> consumerWorker \<Rightarrow> error option"
  addCloseConnRequest :: "int \<Rightarrow> consumerWorker \<Rightarrow> error option"

definition emit :: "event \<Rightarrow> consumerWorker \<Rightarrow> consumerWorker" where
  "emit ev w = w\<lparr>trace := trace w @ [ev]\<rparr>"

text \<open>\<open>c.logError(err).Msg(msg)\<close>.\<close>

definition logError :: "error option \<Rightarrow> string \<Rightarrow> consumerWorker \<Rightarrow> consumerWorker" where
  "logError err msg w = emit (LogError err msg) w"

subsection \<open>The connection registry\<close>

text \<open>
  Modelled from the spec: \<open>connectionManager\<close> is not part of the sources. The spec
  lists what is consumed from it: "register/lookup a connection by descriptor, iterate and
  conditionally close connections, report active-connection count (optionally filtered),
  report whether all connections are closed". \<open>getFd\<close> is the lookup; \<open>get\<close> is the
  lookup the loop uses to check "whether the plain (flag-masked) descriptor is currently
  tracked" (the spec does not describe its second argument, which the loop passes as 0).
\<close>

definition getFd :: "(int \<times> connection) list \<Rightarrow> int \<Rightarrow> connection option" where
  "getFd cm k = map_of cm k"

definition get :: "(int \<times> connection) list \<Rightarrow> int \<Rightarrow> int \<Rightarrow> connection option" where
  "get cm key d = map_of cm key"

definition allClosed :: "(int \<times> connection) list \<Rightarrow> bool" where
  "allClosed cm = (cm = [])"

definition cmActiveConnections :: "(int \<times> connection) list \<Rightarrow> (connection \<Rightarrow> bool) \<Rightarrow> int" where
  "cmActiveConnections cm p = int (length (filter (\<lambda>(k, c). p c) cm))"

text \<open>A write through a \<open>*connection\<close> pointer: the object tracked under key \<open>k\<close>.\<close>

definition putConn :: "int \<Rightarrow> connection \<Rightarrow> consumerWorker \<Rightarrow> consumerWorker" where
  "putConn k conn w = w\<lparr>connections := AList.update k conn (connections w)\<rparr>"

text \<open>
  Modelled from the spec: \<open>conn.setUserSpace()\<close> is not part of the sources. The spec:
  "marks buffers user-owned", "flips the connection back to user-owned buffers".
\<close>

definition setUserSpace :: "connection \<Rightarrow> connection" where
  "setUserSpace conn = conn\<lparr>userSpace := True\<rparr>"

text \<open>
  Modelled from the spec: \<open>closeConn\<close> is not part of the sources. The spec, of the
  completion it is called for: "the descriptor is now fully closed (connection destroyed,
  removed from the registry)". The call is recorded with its arguments and the connection
  leaves the registry.
\<close>

definition closeConn :: "int \<Rightarrow> bool \<Rightarrow> error option \<Rightarrow> consumerWorker \<Rightarrow> consumerWorker" where
  "closeConn k syscallClose err w =
     emit (CloseConn k syscallClose err) (w\<lparr>connections := AList.delete k (connections w)\<rparr>)"


section \<open>The consumer worker\<close>

subsection \<open>\<open>handleConn\<close>: the per-connection dispatcher\<close>

text \<open>
  \<open>conn\<close> is the object tracked under key \<open>k\<close>. The \<open>switch\<close> on \<open>conn.state\<close>
  has the cases \<open>connRead\<close>, \<open>connWrite\<close> and \<open>connClose\<close>; every other state takes
  the \<open>default\<close> branch. The triple is \<open>(err, errMsg, state of the worker)\<close>.
\<close>

definition handleConn ::
  "env \<Rightarrow> int \<Rightarrow> connection \<Rightarrow> completionQueueEvent \<Rightarrow> consumerWorker \<Rightarrow> consumerWorker" where
  "handleConn e k conn cqe w =
     (let (err, errMsg, w') =
        (case state conn of
           connRead \<Rightarrow>
             (let err = onRead e cqe k w;
                  w1 = emit (OnReadCall k) w
              in (err, if err \<noteq> None then ''read error'' else [], w1))
         | connWrite \<Rightarrow>
             (let n = sint (res cqe);
                  w1 = emit (OnKernelWrite k n) w;
                  w2 = emit (LogDebugBytesWrited (fd conn) n) w1;
                  w3 = putConn k (setUserSpace conn) w2;
                  w4 = emit (OnWrite k n) w3;
                  err = addNextRequest e k w4;
                  w5 = emit (AddNextRequest k) w4
              in (err, if err \<noteq> None then ''add request error'' else [], w5))
         | connClose \<Rightarrow>
             (if hasFlag (userData cqe) closeConnFlag then
                (None, [], closeConn k False None w)
              else if hasFlag (userData cqe) writeDataFlag then
                (let n = sint (res cqe);
                     w1 = emit (OnKernelWrite k n) w;
                     w2 = emit (LogDebugBytesWrited (fd conn) n) w1;
                     w3 = putConn k (setUserSpace conn) w2;
                     w4 = emit (OnWrite k n) w3
                 in (None, [], w4))
              else (None, [], w))
         | _ \<Rightarrow> (Some (ErrorUnknownConnectionState (state conn)), [], w))
      in case err of
           None \<Rightarrow> w'
         | Some er \<Rightarrow> closeConn k True err (logError err errMsg w'))"

subsection \<open>\<open>getConnsFromQueue\<close>: inbound handoff through the fallback queue\<close>

text \<open>
  The body of the \<open>for\<close> loop for the dequeued descriptor \<open>d\<close>. The stored value of
  the address map is an interface value; the type assertion to \<open>net.Addr\<close> keeps it.
\<close>

definition getConnFromQueue :: "env \<Rightarrow> int \<Rightarrow> consumerWorker \<Rightarrow> consumerWorker" where
  "getConnFromQueue e d w =
     (case getFd (connections w) d of
        None \<Rightarrow> logError (Some (ErrorConnectionIsMissing d)) ''Get new connection error'' w
      | Some conn \<Rightarrow>
          (let conn1 = conn\<lparr>fd := d, localAddr := workerLocalAddr w\<rparr>;
               (conn2, w1) =
                 (case socketAddresses w d of
                    Some remote \<Rightarrow>
                      (conn1\<lparr>remoteAddr := remote\<rparr>,
                       w\<lparr>socketAddresses := (socketAddresses w)(d := None)\<rparr>)
                  | None \<Rightarrow>
                      (conn1, logError (Some (ErrorAddressNotFound d)) ''Get new connection error'' w));
               w2 = putConn d (setUserSpace conn2) w1;
               w3 = emit (OnAccept d) w2;
               err = addNextRequest e d w3;
               w4 = emit (AddNextRequest d) w3
           in case err of
                None \<Rightarrow> w4
              | Some er \<Rightarrow> logError err ''add request error'' w4))"

text \<open>
  The loop itself: it dequeues until the queue is empty. Nothing in the body adds to the
  queue of the worker, so the loop runs over the entries present at the call.
\<close>

fun getConnsFromQueueLoop :: "env \<Rightarrow> int list \<Rightarrow> consumerWorker \<Rightarrow> consumerWorker" where
  "getConnsFromQueueLoop e [] w = w"
| "getConnsFromQueueLoop e (d # q) w =
     getConnsFromQueueLoop e q (getConnFromQueue e d (w\<lparr>connQueue := Some q\<rparr>))"

text \<open>On a \<open>nil\<close> queue the call of \<open>IsEmpty\<close> panics: the result is \<open>None\<close>.\<close>

definition getConnsFromQueue :: "env \<Rightarrow> consumerWorker \<Rightarrow> consumerWorker option" where
  "getConnsFromQueue e w =
     (case connQueue w of
        None \<Rightarrow> None
      | Some q \<Rightarrow> Some (getConnsFromQueueLoop e q w))"

definition handleJobsInQueues :: "env \<Rightarrow> consumerWorker \<Rightarrow> consumerWorker" where
  "handleJobsInQueues e w =
     (let w1 = (case connQueue w of
                  None \<Rightarrow> w
                | Some q \<Rightarrow> getConnsFromQueueLoop e q w)
      in emit HandleAsyncWritesIfEnabled w1)"

subsection \<open>The handler of the loop\<close>

text \<open>\<open>syscall.Stderr\<close> of the Go standard library.\<close>

definition syscall_Stderr :: int where
  "syscall_Stderr = 2"

text \<open>
  The function \<open>loop\<close> passes to \<open>startLoop\<close>, run for one completion event. The
  result is the returned error and the state of the worker.
\<close>

definition loopHandler ::
  "env \<Rightarrow> completionQueueEvent \<Rightarrow> consumerWorker \<Rightarrow> error option \<times> consumerWorker" where
  "loopHandler e cqe w =
     (if processEvent e cqe (get (connections w) (plainFd (userData cqe)) 0 = None) then (None, w)
      else if hasFlag (userData cqe) addConnFlag then
        (let fileDescriptor = sint (res cqe) in
         case getFd (connections w) fileDescriptor of
           None \<Rightarrow>
             (None,
              emit (SyscallCloseSocket fileDescriptor)
                (logError (Some (ErrorConnectionIsMissing fileDescriptor))
                   ''Get new connection error'' w))
         | Some conn \<Rightarrow>
             (let conn1 = conn\<lparr>fd := sint (res cqe), localAddr := workerLocalAddr w\<rparr>;
                  (conn2, w1) =
                    (case socketAddresses w (fd conn1) of
                       Some remote \<Rightarrow>
                         (conn1\<lparr>remoteAddr := remote\<rparr>,
                          w\<lparr>socketAddresses := (socketAddresses w)(fd conn1 := None)\<rparr>)
                     | None \<Rightarrow>
                         (conn1,
                          logError (Some (ErrorAddressNotFound (fd conn1)))
                            ''Get new connection error'' w));
                  w2 = putConn fileDescriptor (setUserSpace conn2) w1;
                  w3 = emit (OnAccept fileDescriptor) w2
              in (addNextRequest e fileDescriptor w3, emit (AddNextRequest fileDescriptor) w3)))
      else
        (let fileDescriptor = plainFd (userData cqe) in
         if fileDescriptor < syscall_Stderr then
           (None, emit (LogErrorFd fileDescriptor ''Invalid file descriptor'') w)
         else
           (case getFd (connections w) fileDescriptor of
              None \<Rightarrow>
                (None,
                 emit (SyscallCloseSocket fileDescriptor)
                   (logError (Some (ErrorConnectionIsMissing fileDescriptor))
                      ''Get connection error'' w))
            | Some conn \<Rightarrow> (None, handleConn e fileDescriptor conn cqe w))))"

subsection \<open>Shutdown\<close>

text \<open>The callback \<open>closeAllConns\<close> gives to the registry, for the connection under \<open>k\<close>.\<close>

definition closeCallback :: "env \<Rightarrow> int \<Rightarrow> consumerWorker \<Rightarrow> bool \<times> consumerWorker" where
  "closeCallback e k w =
     (let err = addCloseConnRequest e k w;
          w1 = emit (AddCloseConnRequest k) w;
          w2 = (case err of
                  None \<Rightarrow> w1
                | Some er \<Rightarrow> logError err ''Add close() connection request error'' w1)
      in (err = None, w2))"

text \<open>
  Modelled from the spec: \<open>connectionManager.close\<close> is not part of the sources. The
  spec: "iterate and conditionally close connections", and of shutdown: "issues a close
  operation for every still-open tracked connection (ignoring individual submission
  failures beyond logging them -- one failed close must not block closing the rest)".
  The callback runs once for every tracked connection, in the order of the registry,
  whatever it returned for the ones before. The spec describes neither the integer
  argument (\<open>closeAllConns\<close> passes \<open>-1\<close>) nor what the registry does with the result
  of the callback; the model uses neither.
\<close>

fun connectionManager_close ::
  "(int \<Rightarrow> consumerWorker \<Rightarrow> bool \<times> consumerWorker) \<Rightarrow> int \<Rightarrow> int list \<Rightarrow> consumerWorker
   \<Rightarrow> consumerWorker" where
  "connectionManager_close callback a [] w = w"
| "connectionManager_close callback a (k # ks) w =
     connectionManager_close callback a ks (snd (callback k w))"

definition closeAllConns :: "env \<Rightarrow> consumerWorker \<Rightarrow> consumerWorker" where
  "closeAllConns e w =
     (let w1 = emit (LogWarn ''Closing connections'') w
      in connectionManager_close (closeCallback e) (- 1) (map fst (connections w1)) w1)"

text \<open>
  Modelled from the spec: \<open>needToShutdown\<close> and \<open>markShutdownInProgress\<close> are not part
  of the sources. The spec: "a shutdown predicate is checked once per loop iteration. When
  true and not already in progress, the worker marks itself "shutdown in progress"".
\<close>

definition needToShutdown :: "consumerWorker \<Rightarrow> bool" where
  "needToShutdown w = (shutdownRequested w \<and> \<not> shutdownInProgress w)"

definition markShutdownInProgress :: "consumerWorker \<Rightarrow> consumerWorker" where
  "markShutdownInProgress w = w\<lparr>shutdownInProgress := True\<rparr>"

text \<open>
  The three handlers \<open>loop\<close> installs; \<open>onCloseHandler\<close> is \<open>closeAllConns\<close>
  (\<open>newConsumerWorker\<close>).
\<close>

definition shutdownHandler :: "env \<Rightarrow> consumerWorker \<Rightarrow> bool \<times> consumerWorker" where
  "shutdownHandler e w =
     (if needToShutdown w then (True, markShutdownInProgress (closeAllConns e w))
      else (True, w))"

definition loopFinishCondition :: "consumerWorker \<Rightarrow> bool \<times> consumerWorker" where
  "loopFinishCondition w =
     (if allClosed (connections w) then (True, emit NotifyFinish w) else (False, w))"


section \<open>The acceptor\<close>

text \<open>
  Modelled from the spec: the ring (\<open>iouring.Ring\<close>, \<open>GetSQE\<close>, the submission queue
  entry and \<open>PrepareAccept\<close>) is not part of the sources. The spec: "obtain a submission
  slot, populate it with an accept/read/write/close operation and a 64-bit tag", and of
  the accept submission: "Fails if the ring's submission queue is exhausted". A ring is
  the list of the entries handed out and not yet consumed by the kernel, with the size of
  its submission queue; \<open>GetSQE\<close> hands out the next entry, blank, or fails with the
  error \<open>iouring\<close> declares for the submission queue. The address and length pointers
  of \<open>PrepareAccept\<close> are memory addresses and are left out.
\<close>

datatype opcode = OpNop | OpAccept

record submissionQueueEntry =
  opcode :: opcode
  sqeFd :: int
  opFlags :: int
  UserData :: userdata

record ring =
  sqEntries :: "submissionQueueEntry list"
  sqSize :: nat

definition blankEntry :: submissionQueueEntry where
  "blankEntry = \<lparr>opcode = OpNop, sqeFd = 0, opFlags = 0, UserData = 0\<rparr>"

definition GetSQE :: "ring \<Rightarrow> error + (nat \<times> ring)" where
  "GetSQE r =
     (if length (sqEntries r) < sqSize r
      then Inr (length (sqEntries r), r\<lparr>sqEntries := sqEntries r @ [blankEntry]\<rparr>)
      else Inl ErrSQEOverflow)"

definition PrepareAccept :: "int \<Rightarrow> int \<Rightarrow> submissionQueueEntry \<Rightarrow> submissionQueueEntry" where
  "PrepareAccept d flags entry = entry\<lparr>opcode := OpAccept, sqeFd := d, opFlags := flags\<rparr>"

text \<open>
  The acceptor: its ring, its listening descriptor and the connection registry. (The
  fields are prefixed: \<open>fd\<close> is a field of the connection already.)
\<close>

record acceptor =
  acceptorRing :: ring
  acceptorFd :: int
  acceptorConnections :: "(int \<times> connection) list"

definition addAcceptRequest :: "acceptor \<Rightarrow> error option \<times> acceptor" where
  "addAcceptRequest a =
     (case GetSQE (acceptorRing a) of
        Inl err \<Rightarrow> (Some (ErrorGettingSQE err), a)
      | Inr (i, r) \<Rightarrow>
          (let entry = PrepareAccept (acceptorFd a) 0 (sqEntries r ! i);
               entry' = entry\<lparr>UserData := acceptDataFlag OR word_of_int (acceptorFd a)\<rparr>
           in (None, a\<lparr>acceptorRing := r\<lparr>sqEntries := (sqEntries r)[i := entry']\<rparr>\<rparr>)))"

definition addAcceptConnRequest :: "acceptor \<Rightarrow> error option \<times> acceptor" where
  "addAcceptConnRequest a =
     (case addAcceptRequest a of
        (Some err, a') \<Rightarrow> (Some err, a')
      | (None, a') \<Rightarrow>
          (case getFd (acceptorConnections a') (acceptorFd a') of
             None \<Rightarrow> (Some ErrConnectionIsMissing, a')
           | Some conn \<Rightarrow>
               (None,
                a'\<lparr>acceptorConnections :=
                     AList.update (acceptorFd a') (conn\<lparr>state := connAccept\<rparr>)
                       (acceptorConnections a')\<rparr>)))"

section \<open>The load balancers\<close>

text \<open>
  The worker of the tests: \<open>conns\<close> is a Go \<open>int\<close>, 64 bits wide and signed;
  \<open>activeConnections\<close> returns it and \<open>loop\<close> increments it, wrapping around as
  \<open>w.conns++\<close> does, and returns no error.
\<close>

record testWorker =
  conns :: "64 word"

definition activeConnections :: "testWorker \<Rightarrow> int" where
  "activeConnections w = sint (conns w)"

definition testWorker_loop :: "testWorker \<Rightarrow> error option \<times> testWorker" where
  "testWorker_loop w = (None, w\<lparr>conns := conns w + 1\<rparr>)"

text \<open>
  Modelled from the spec: the round-robin balancer (\<open>newRoundRobinLoadBalancer\<close>,
  \<open>register\<close>, \<open>next\<close>) is not part of the sources, only its test is. The spec:
  "\<open>register(worker)\<close> appends a worker to the pool", "Round-robin: stateful cursor \<open>c\<close>
  initialized to 0. Each \<open>next\<close> call returns pool[c], then sets
  \<open>c = (c+1) mod len(pool)\<close>"; the hint is "currently always passed as absent". The
  pool holds references to workers, of any type \<open>'w\<close>. With the cursor outside the
  pool (the empty pool) the indexing panics: the result is \<open>None\<close>.
\<close>

record 'w roundRobinLoadBalancer =
  rrWorkers :: "'w list"
  rrCursor :: nat

definition newRoundRobinLoadBalancer :: "'w roundRobinLoadBalancer" where
  "newRoundRobinLoadBalancer = \<lparr>rrWorkers = [], rrCursor = 0\<rparr>"

definition rrRegister :: "'w roundRobinLoadBalancer \<Rightarrow> 'w \<Rightarrow> 'w roundRobinLoadBalancer" where
  "rrRegister lb w = lb\<lparr>rrWorkers := rrWorkers lb @ [w]\<rparr>"

definition rrNext ::
  "netAddr \<Rightarrow> 'w roundRobinLoadBalancer \<Rightarrow> 'w option \<times> 'w roundRobinLoadBalancer" where
  "rrNext hint lb =
     (if rrCursor lb < length (rrWorkers lb)
      then (Some (rrWorkers lb ! rrCursor lb),
            lb\<lparr>rrCursor := (rrCursor lb + 1) mod length (rrWorkers lb)\<rparr>)
      else (None, lb))"

text \<open>\<open>n\<close> consecutive calls \<open>lb.next(nil)\<close>, as in the test; the workers returned.\<close>

fun rrNexts :: "nat \<Rightarrow> 'w roundRobinLoadBalancer \<Rightarrow> 'w option list" where
  "rrNexts 0 lb = []"
| "rrNexts (Suc n) lb = (case rrNext None lb of (r, lb') \<Rightarrow> r # rrNexts n lb')"

text \<open>
  Modelled from the spec: the least-connections balancer is not part of the sources,
  only its test is. The spec: "Each \<open>next\<close> call performs a full linear scan over the
  pool in registration order, tracking the minimum observed active-connection count, and
  returns the first worker attaining that minimum", and "The active-connection count used
  for comparison is read fresh on every call". The balancer holds references; \<open>cnt\<close>
  reads the active-connection count of a referenced worker at the time of the call. On the
  empty pool there is no worker to return: the result is \<open>None\<close>.
\<close>

record 'w leastConnectionsLoadBalancer =
  lcWorkers :: "'w list"

definition newLeastConnectionsLoadBalancer :: "'w leastConnectionsLoadBalancer" where
  "newLeastConnectionsLoadBalancer = \<lparr>lcWorkers = []\<rparr>"

definition lcRegister ::
  "'w leastConnectionsLoadBalancer \<Rightarrow> 'w \<Rightarrow> 'w leastConnectionsLoadBalancer" where
  "lcRegister lb w = lb\<lparr>lcWorkers := lcWorkers lb @ [w]\<rparr>"

fun lcScan :: "('w \<Rightarrow> int) \<Rightarrow> 'w \<Rightarrow> int \<Rightarrow> 'w list \<Rightarrow> 'w" where
  "lcScan cnt best m [] = best"
| "lcScan cnt best m (w # ws) =
     (if cnt w < m then lcScan cnt w (cnt w) ws else lcScan cnt best m ws)"

definition lcNext :: "('w \<Rightarrow> int) \<Rightarrow> netAddr \<Rightarrow> 'w leastConnectionsLoadBalancer \<Rightarrow> 'w option" where
  "lcNext cnt hint lb =
     (case lcWorkers lb of
        [] \<Rightarrow> None
      | w # ws \<Rightarrow> Some (lcScan cnt w (cnt w) ws))"

text \<open>
  The steps of \<open>TestLeastConnectionsLoadBalander\<close>: the workers live in a store, the
  balancer holds their addresses; each \<open>next(nil)\<close> is followed by \<open>loop(0)\<close> on the
  worker returned, before the next call.
\<close>

fun lcPicks ::
  "nat \<Rightarrow> nat leastConnectionsLoadBalancer \<Rightarrow> (nat \<Rightarrow> testWorker) \<Rightarrow> nat option list" where
  "lcPicks 0 lb store = []"
| "lcPicks (Suc n) lb store =
     (case lcNext (\<lambda>r. activeConnections (store r)) None lb of
        None \<Rightarrow> [None]
      | Some r \<Rightarrow> Some r # lcPicks n lb (store(r := snd (testWorker_loop (store r)))))"


text \<open>
  The workers of \<open>TestLeastConnectionsLoadBalander\<close>: \<open>createTestWorkers\<close> makes
  workers without connections, and the test sets the counts of the four it registers to
  1, 0, 2 and 1.
\<close>

definition createTestWorkers :: "nat \<Rightarrow> testWorker" where
  "createTestWorkers = (\<lambda>r. \<lparr>conns = 0\<rparr>)"

definition testStore :: "nat \<Rightarrow> testWorker" where
  "testStore = createTestWorkers
     (0 := \<lparr>conns = 1\<rparr>, 1 := \<lparr>conns = 0\<rparr>, 2 := \<lparr>conns = 2\<rparr>, 3 := \<lparr>conns = 1\<rparr>)"

section \<open>Events of the trace and sample states\<close>

fun isAddCloseConnRequest :: "event \<Rightarrow> bool" where
  "isAddCloseConnRequest (AddCloseConnRequest k) = True"
| "isAddCloseConnRequest ev = False"

text \<open>
  Modelled from the spec: \<open>processEvent\<close> is not part of the sources. The spec: "the
  worker first checks whether the plain (flag-masked) descriptor is currently tracked --
  if not, the event is for a connection already torn down and is dropped". The event is
  dropped exactly when the callback of the loop reports the descriptor as not tracked.
\<close>

definition processEventSpec :: "completionQueueEvent \<Rightarrow> bool \<Rightarrow> bool" where
  "processEventSpec cqe untracked = untracked"

text \<open>
  An environment for concrete runs: reads and next requests succeed, and the close
  request for the connection under key 6 fails for want of a submission queue entry.
\<close>

definition sampleEnv :: env where
  "sampleEnv =
     \<lparr>processEvent = processEventSpec,
      onRead = (\<lambda>cqe k w. None),
      addNextRequest = (\<lambda>k w. None),
      addCloseConnRequest = (\<lambda>k w. if k = 6 then Some (ErrorGettingSQE ErrSQEOverflow) else None)\<rparr>"

definition sampleConn :: "int \<Rightarrow> connectionState \<Rightarrow> connection" where
  "sampleConn d st =
     \<lparr>fd = d, state = st, localAddr = None, remoteAddr = None, userSpace = False\<rparr>"

text \<open>
  A worker with three tracked connections, a remote address pending for descriptor 5,
  descriptors 5 and 6 in its fallback queue, and shutdown requested.
\<close>

definition sampleWorker :: consumerWorker where
  "sampleWorker =
     \<lparr>connections = [(1, sampleConn 1 connRead), (5, sampleConn 5 connClose),
                     (6, sampleConn 6 connAccept)],
      socketAddresses = [5 \<mapsto> Some ''10.0.0.7:4242''],
      connQueue = Some [5, 6],
      workerLocalAddr = Some ''0.0.0.0:8080'',
      shutdownRequested = True,
      shutdownInProgress = False,
      trace = []\<rparr>"

text \<open>An empty ring of four entries, a listening descriptor 3 and no tracked connection.\<close>

definition sampleAcceptor :: acceptor where
  "sampleAcceptor =
     \<lparr>acceptorRing = \<lparr>sqEntries = [], sqSize = 4\<rparr>,
      acceptorFd = 3,
      acceptorConnections = []\<rparr>"

text \<open>
  A completion carrying the added-connection flag: the descriptor handed off is the
  result code 5, the descriptor bits of the tag hold 1.
\<close>

definition addConnEvent :: completionQueueEvent where
  "addConnEvent = \<lparr>res = 5, userData = composeTag addConnFlag 1\<rparr>"

text \<open>
  The trace of \<open>w'\<close> extends the trace of \<open>w\<close> by events none of which is the call
  of \<open>notifyFinish\<close>.
\<close>

definition withoutNotifyFinish :: "consumerWorker \<Rightarrow> consumerWorker \<Rightarrow> bool" where
  "withoutNotifyFinish w w' = (\<exists>evs. trace w' = trace w @ evs \<and> NotifyFinish \<notin> set evs)"

section \<open>Properties of the completion tags\<close>

lemma bit_single: "bit (push_bit m 1 :: userdata) n \<longleftrightarrow> n = m \<and> m < 64"
  by (auto simp: bit_exp_iff) 

lemma bit_flags:
  "bit acceptDataFlag n \<longleftrightarrow> n = 63"
  "bit addConnFlag n \<longleftrightarrow> n = 62"
  "bit closeConnFlag n \<longleftrightarrow> n = 61"
  "bit writeDataFlag n \<longleftrightarrow> n = 60"
  unfolding acceptDataFlag_def addConnFlag_def closeConnFlag_def writeDataFlag_def bit_single
  by simp_all

lemma bit_allFlagsMask: "bit allFlagsMask n \<longleftrightarrow> n \<in> {60, 61, 62, 63}"
  unfolding allFlagsMask_def bit_or_iff bit_flags by auto

lemma bit_fd: assumes "validFd d" "bit (word_of_int d :: userdata) n" shows "n < 31"
proof (rule ccontr)
  assume "\<not> n < 31"
  then have "(2::int) ^ 31 \<le> 2 ^ n" by (intro power_increasing) simp_all
  with assms(1) have "d < 2 ^ n" "0 \<le> d" unfolding validFd_def by linarith+
  then have "d div 2 ^ n = 0" by simp
  then have "\<not> bit d n" by (simp add: bit_iff_odd)
  with assms(2) show False by (simp add: bit_word_of_int_iff)
qed

lemma sint_fd: assumes "validFd d" shows "sint (word_of_int d :: userdata) = d"
proof -
  from assms have "- (2 ^ 63) \<le> d" "d < 2 ^ 63" unfolding validFd_def by simp_all
  then have "signed_take_bit 63 d = d" by (rule signed_take_bit_int_eq_self)
  then show ?thesis by (simp add: sint_sbintrunc')
qed

lemma mask_fd: assumes "validFd d" "f \<in> set definedFlags"
  shows "(f OR word_of_int d) AND NOT allFlagsMask = (word_of_int d :: userdata)"
proof (rule bit_eqI)
  fix n
  show "bit ((f OR word_of_int d) AND NOT allFlagsMask) n = bit (word_of_int d :: userdata) n"
    using assms(2) bit_fd[OF assms(1), of n]
    unfolding definedFlags_def bit_and_iff bit_or_iff bit_not_iff bit_allFlagsMask
    by (auto simp: bit_flags dest: bit_imp_le_length)
qed

lemma fd_no_flag_bits: assumes "validFd d" shows "word_of_int d AND allFlagsMask = (0::userdata)"
proof (rule bit_eqI)
  fix n
  show "bit (word_of_int d AND allFlagsMask) n = bit (0::userdata) n"
    using bit_fd[OF assms, of n] unfolding bit_and_iff bit_allFlagsMask by auto
qed

lemma hasFlag_iff: "hasFlag tag flag \<longleftrightarrow> (\<exists>n. bit tag n \<and> bit flag n)"
proof
  assume "hasFlag tag flag"
  then have "tag AND flag \<noteq> 0" unfolding hasFlag_def word_gt_0 by simp
  then obtain n where "bit (tag AND flag) n" by (auto simp: bit_eq_iff)
  then show "\<exists>n. bit tag n \<and> bit flag n" by (auto simp: bit_and_iff)
next
  assume "\<exists>n. bit tag n \<and> bit flag n"
  then obtain n where "bit (tag AND flag) n" by (auto simp: bit_and_iff)
  then have "tag AND flag \<noteq> 0" by auto
  then show "hasFlag tag flag" unfolding hasFlag_def word_gt_0 by simp
qed

lemma fd_high_bits: assumes "validFd d"
  shows "\<not> bit (word_of_int d :: userdata) 60" "\<not> bit (word_of_int d :: userdata) 61"
    "\<not> bit (word_of_int d :: userdata) 62" "\<not> bit (word_of_int d :: userdata) 63"
  using bit_fd[OF assms, of 60] bit_fd[OF assms, of 61] bit_fd[OF assms, of 62] bit_fd[OF assms, of 63]
  by auto

lemma flag_test: assumes "validFd d" "f \<in> set definedFlags" "g \<in> set definedFlags"
  shows "hasFlag (composeTag f d) g \<longleftrightarrow> g = f"
  using assms(2,3) fd_high_bits[OF assms(1)]
  unfolding hasFlag_iff composeTag_def bit_or_iff definedFlags_def
  by (auto simp: bit_flags) 

lemma flags_disjoint: assumes "f \<in> set definedFlags" "g \<in> set definedFlags" "f \<noteq> g"
  shows "f AND g = 0"
proof (rule bit_eqI)
  fix n show "bit (f AND g) n = bit (0::userdata) n"
  using assms unfolding definedFlags_def bit_and_iff by (auto simp: bit_flags)
qed

text \<open>
  Claim C1. For every valid descriptor \<open>d\<close> and every flag \<open>f\<close> of the defined flag
  set, masking the flag bits off the tag \<open>f | d\<close> gives back exactly \<open>d\<close>; the bits
  of a descriptor and the bits of the flags do not overlap; a bitwise test of the tag
  against a flag of the set succeeds for \<open>f\<close> and for no other flag; and no two flags
  share a bit.
\<close>

theorem tag_mask_recovers_descriptor:
  assumes "validFd d" and "f \<in> set definedFlags"
  shows "plainFd (composeTag f d) = d
       \<and> word_of_int d AND allFlagsMask = (0::userdata)
       \<and> (\<forall>g \<in> set definedFlags. hasFlag (composeTag f d) g \<longleftrightarrow> g = f)
       \<and> (\<forall>g \<in> set definedFlags. g \<noteq> f \<longrightarrow> f AND g = 0)
       \<and> distinct definedFlags"
proof -
  have "plainFd (composeTag f d) = d"
    unfolding plainFd_def composeTag_def mask_fd[OF assms] by (rule sint_fd[OF assms(1)])
  moreover have "distinct definedFlags"
    by (simp add: definedFlags_def acceptDataFlag_def addConnFlag_def closeConnFlag_def writeDataFlag_def)
  ultimately show ?thesis
    using fd_no_flag_bits[OF assms(1)] flag_test[OF assms] flags_disjoint[OF assms(2)]
    by blast
qed

text \<open>The close flag on descriptor 7.\<close>

theorem tag_mask_recovers_descriptor_witness:
  "validFd 7 \<and> closeConnFlag \<in> set definedFlags
   \<and> plainFd (composeTag closeConnFlag 7) = 7
   \<and> hasFlag (composeTag closeConnFlag 7) closeConnFlag
   \<and> \<not> hasFlag (composeTag closeConnFlag 7) writeDataFlag"
proof -
  have v: "validFd 7" by (simp add: validFd_def)
  have m: "closeConnFlag \<in> set definedFlags" "writeDataFlag \<in> set definedFlags" by (simp_all add: definedFlags_def)
  have ne: "writeDataFlag \<noteq> closeConnFlag" by (simp add: closeConnFlag_def writeDataFlag_def)
  from tag_mask_recovers_descriptor[OF v m(1)] v m ne show ?thesis by blast
qed

section \<open>Properties of the load balancers\<close>

lemma rrRegister_foldl:
  "foldl rrRegister lb pool = lb\<lparr>rrWorkers := rrWorkers lb @ pool\<rparr>"
  by (induction pool arbitrary: lb) (simp_all add: rrRegister_def)

lemma rrRegister_all:
  "foldl rrRegister newRoundRobinLoadBalancer pool = \<lparr>rrWorkers = pool, rrCursor = 0\<rparr>"
  by (simp add: rrRegister_foldl newRoundRobinLoadBalancer_def)

lemma rrNext_step:
  assumes "c < length pool"
  shows "rrNext hint \<lparr>rrWorkers = pool, rrCursor = c\<rparr>
       = (Some (pool ! c), \<lparr>rrWorkers = pool, rrCursor = (c + 1) mod length pool\<rparr>)"
  using assms by (simp add: rrNext_def)

lemma rrNexts_from:
  assumes "c < length pool"
  shows "rrNexts m \<lparr>rrWorkers = pool, rrCursor = c\<rparr>
       = map (\<lambda>i. Some (pool ! ((c + i) mod length pool))) [0..<m]"
  using assms
proof (induction m arbitrary: c)
  case 0
  show ?case by simp
next
  case (Suc m)
  have pos: "0 < length pool" using Suc.prems by (cases pool) simp_all
  then have next_lt: "(c + 1) mod length pool < length pool" by simp
  have "rrNexts (Suc m) \<lparr>rrWorkers = pool, rrCursor = c\<rparr>
      = Some (pool ! c) # rrNexts m \<lparr>rrWorkers = pool, rrCursor = (c + 1) mod length pool\<rparr>"
    by (simp add: rrNext_step[OF Suc.prems])
  also have "\<dots> = Some (pool ! c)
      # map (\<lambda>i. Some (pool ! (((c + 1) mod length pool + i) mod length pool))) [0..<m]"
    by (simp only: Suc.IH[OF next_lt])
  also have "\<dots> = Some (pool ! ((c + 0) mod length pool))
      # map (\<lambda>i. Some (pool ! ((c + Suc i) mod length pool))) [0..<m]"
    using Suc.prems by (simp add: mod_add_left_eq)
  also have "\<dots> = map (\<lambda>i. Some (pool ! ((c + i) mod length pool))) (0 # map Suc [0..<m])"
    by (simp add: comp_def)
  also have "0 # map Suc [0..<m] = [0..<Suc m]"
    by (simp add: map_Suc_upt upt_conv_Cons del: upt_Suc)
  finally show ?case .
qed

lemma rr_window:
  assumes "pool \<noteq> []"
  shows "take (length pool) (drop k (rrNexts (k + length pool) \<lparr>rrWorkers = pool, rrCursor = 0\<rparr>))
       = map Some (rotate k pool)"
proof (rule nth_equalityI)
  have pos: "0 < length pool" using assms by simp
  note r = rrNexts_from[OF pos]
  show "length (take (length pool) (drop k (rrNexts (k + length pool) \<lparr>rrWorkers = pool, rrCursor = 0\<rparr>)))
      = length (map Some (rotate k pool))"
    by (simp add: r)
  fix i
  assume "i < length (take (length pool) (drop k (rrNexts (k + length pool) \<lparr>rrWorkers = pool, rrCursor = 0\<rparr>)))"
  then have i: "i < length pool" by (simp add: r)
  then show "take (length pool) (drop k (rrNexts (k + length pool) \<lparr>rrWorkers = pool, rrCursor = 0\<rparr>)) ! i
      = map Some (rotate k pool) ! i"
    by (simp add: r nth_rotate)
qed

lemma mset_rotate_eq: "mset (rotate k xs) = mset xs"
proof -
  have "mset (rotate k xs) = mset (drop (k mod length xs) xs) + mset (take (k mod length xs) xs)"
    by (simp add: rotate_drop_take)
  also have "\<dots> = mset (take (k mod length xs) xs @ drop (k mod length xs) xs)"
    by (simp only: mset_append add.commute)
  finally show ?thesis by simp
qed

text \<open>
  Claim C4. With the workers of a non-empty pool registered and the cursor at 0, a call
  of \<open>next\<close> at cursor \<open>c\<close> returns \<open>pool[c]\<close> and moves the cursor to
  \<open>(c+1) mod N\<close>; the \<open>i\<close>-th call returns \<open>pool[i mod N]\<close>; any \<open>N\<close>
  consecutive calls return the pool rotated to the position of the cursor, that is every
  registered worker exactly once, in registration order (cyclically; from a cursor at 0,
  after any multiple of \<open>N\<close> calls, the pool itself); hence the sequence repeats every
  \<open>N\<close> calls.
\<close>

theorem round_robin_visits_pool_in_order:
  assumes "pool \<noteq> []"
  shows "(\<forall>c < length pool.
            rrNext None \<lparr>rrWorkers = pool, rrCursor = c\<rparr>
            = (Some (pool ! c), \<lparr>rrWorkers = pool, rrCursor = (c + 1) mod length pool\<rparr>))
       \<and> rrNexts m (foldl rrRegister newRoundRobinLoadBalancer pool)
            = map (\<lambda>i. Some (pool ! (i mod length pool))) [0..<m]
       \<and> take (length pool)
            (drop k (rrNexts (k + length pool) (foldl rrRegister newRoundRobinLoadBalancer pool)))
            = map Some (rotate k pool)
       \<and> mset (rotate k pool) = mset pool
       \<and> rotate (j * length pool) pool = pool"
proof -
  have pos: "0 < length pool" using assms by simp
  have "rotate (j * length pool) pool = rotate ((j * length pool) mod length pool) pool"
    by (rule rotate_conv_mod)
  then have "rotate (j * length pool) pool = pool" by simp
  then show ?thesis
    using rrNext_step[of _ pool None] rrNexts_from[OF pos, of m] rr_window[OF assms, of k]
    by (simp add: rrRegister_all mset_rotate_eq)
qed

text \<open>The test: four workers, eight calls.\<close>

theorem round_robin_visits_pool_in_order_witness:
  "[''w0'', ''w1'', ''w2'', ''w3''] \<noteq> []
   \<and> rrNexts 8 (foldl rrRegister newRoundRobinLoadBalancer [''w0'', ''w1'', ''w2'', ''w3''])
     = map Some [''w0'', ''w1'', ''w2'', ''w3'', ''w0'', ''w1'', ''w2'', ''w3'']"
proof -
  have ne: "[''w0'', ''w1'', ''w2'', ''w3''] \<noteq> []" by simp
  have u: "[0..<8] = [0, 1, 2, 3, 4, 5, 6, 7::nat]" by (simp add: upt_rec)
  from round_robin_visits_pool_in_order[OF ne, of 8] show ?thesis
    by (simp add: u)
qed


lemma lcScan_first_minimum:
  assumes "b < length pre"
    and "\<forall>j < length pre. cnt (pre ! b) \<le> cnt (pre ! j)"
    and "\<forall>j < b. cnt (pre ! b) < cnt (pre ! j)"
  shows "\<exists>i < length (pre @ ws).
           lcScan cnt (pre ! b) (cnt (pre ! b)) ws = (pre @ ws) ! i
         \<and> (\<forall>j < length (pre @ ws). cnt ((pre @ ws) ! i) \<le> cnt ((pre @ ws) ! j))
         \<and> (\<forall>j < i. cnt ((pre @ ws) ! i) < cnt ((pre @ ws) ! j))"
  using assms
proof (induction ws arbitrary: pre b)
  case Nil
  then show ?case by auto
next
  case (Cons w ws)
  let ?pre = "pre @ [w]"
  show ?case
  proof (cases "cnt w < cnt (pre ! b)")
    case True
    have b': "length pre < length ?pre" by simp
    have at: "?pre ! length pre = w" by simp
    have all: "\<forall>j < length ?pre. cnt (?pre ! length pre) \<le> cnt (?pre ! j)"
      using True Cons.prems(2) by (auto simp: nth_append less_Suc_eq intro: order_trans less_imp_le)
    have before: "\<forall>j < length pre. cnt (?pre ! length pre) < cnt (?pre ! j)"
      using True Cons.prems(2) by (auto simp: nth_append intro: less_le_trans)
    from Cons.IH[OF b' all before] True show ?thesis by simp
  next
    case False
    have b': "b < length ?pre" using Cons.prems(1) by simp
    have at: "?pre ! b = pre ! b" using Cons.prems(1) by (simp add: nth_append)
    have all: "\<forall>j < length ?pre. cnt (?pre ! b) \<le> cnt (?pre ! j)"
      using False Cons.prems(1,2) by (auto simp: nth_append less_Suc_eq)
    have before: "\<forall>j < b. cnt (?pre ! b) < cnt (?pre ! j)"
      using Cons.prems(1,3) by (auto simp: nth_append)
    from Cons.IH[OF b' all before] False at show ?thesis by simp
  qed
qed

lemma lcNext_first_minimum:
  assumes "pool \<noteq> []"
  shows "\<exists>i < length pool.
           lcNext cnt hint \<lparr>lcWorkers = pool\<rparr> = Some (pool ! i)
         \<and> (\<forall>j < length pool. cnt (pool ! i) \<le> cnt (pool ! j))
         \<and> (\<forall>j < i. cnt (pool ! i) < cnt (pool ! j))"
proof -
  from assms obtain w ws where p: "pool = w # ws" by (cases pool) auto
  from lcScan_first_minimum[of 0 "[w]" cnt ws] show ?thesis
    by (simp add: p lcNext_def)
qed

text \<open>
  Claim C5. A call of \<open>next\<close> of the least-connections balancer reads the counts of
  the workers at the call and returns the first worker of the pool (lowest registration
  index) whose count is the minimum; with four workers of counts 1, 0, 2, 1, each pick
  followed by \<open>loop\<close> on the worker picked, the picks are workers 1, 0, 1, 3, 0, 1, 2, 3.
\<close>

theorem least_connections_first_minimum:
  assumes "pool \<noteq> []"
  shows "(\<exists>i < length pool.
            lcNext (\<lambda>r. activeConnections (store r)) hint \<lparr>lcWorkers = pool\<rparr> = Some (pool ! i)
          \<and> (\<forall>j < length pool.
                activeConnections (store (pool ! i)) \<le> activeConnections (store (pool ! j)))
          \<and> (\<forall>j < i.
                activeConnections (store (pool ! i)) < activeConnections (store (pool ! j))))
       \<and> lcPicks 8 (foldl lcRegister newLeastConnectionsLoadBalancer [0, 1, 2, 3]) testStore
           = map Some [1, 0, 1, 3, 0, 1, 2, 3]"
proof -
  have "lcPicks 8 (foldl lcRegister newLeastConnectionsLoadBalancer [0, 1, 2, 3]) testStore
      = map Some [1, 0, 1, 3, 0, 1, 2, 3]"
    by (simp add: eval_nat_numeral lcRegister_def newLeastConnectionsLoadBalancer_def lcNext_def
          testStore_def createTestWorkers_def activeConnections_def testWorker_loop_def)
  with lcNext_first_minimum[OF assms, of "\<lambda>r. activeConnections (store r)" hint]
  show ?thesis by simp
qed

text \<open>The first call of the test: worker 1, with count 0, is the first minimum.\<close>

theorem least_connections_first_minimum_witness:
  "[0, 1, 2, 3] \<noteq> ([] :: nat list)
   \<and> lcNext (\<lambda>r. activeConnections (testStore r)) None \<lparr>lcWorkers = [0, 1, 2, 3]\<rparr> = Some 1
   \<and> (\<exists>i < length [0, 1, 2, 3 :: nat].
         lcNext (\<lambda>r. activeConnections (testStore r)) None \<lparr>lcWorkers = [0, 1, 2, 3]\<rparr>
         = Some ([0, 1, 2, 3] ! i))"
proof -
  have ne: "[0, 1, 2, 3] \<noteq> ([] :: nat list)" by simp
  have v: "lcNext (\<lambda>r. activeConnections (testStore r)) None \<lparr>lcWorkers = [0, 1, 2, 3]\<rparr> = Some 1"
    by (simp add: lcNext_def testStore_def createTestWorkers_def activeConnections_def)
  from least_connections_first_minimum[OF ne, of testStore None] ne v show ?thesis by blast
qed

section \<open>Properties of the consumer worker and of the acceptor\<close>

lemma trace_emit [simp]: "trace (emit ev w) = trace w @ [ev]"
  and connections_emit [simp]: "connections (emit ev w) = connections w"
  and socketAddresses_emit [simp]: "socketAddresses (emit ev w) = socketAddresses w"
  and connQueue_emit [simp]: "connQueue (emit ev w) = connQueue w"
  and workerLocalAddr_emit [simp]: "workerLocalAddr (emit ev w) = workerLocalAddr w"
  and shutdownRequested_emit [simp]: "shutdownRequested (emit ev w) = shutdownRequested w"
  and shutdownInProgress_emit [simp]: "shutdownInProgress (emit ev w) = shutdownInProgress w"
  by (simp_all add: emit_def)

lemma trace_putConn [simp]: "trace (putConn k c w) = trace w"
  and connections_putConn [simp]: "connections (putConn k c w) = AList.update k c (connections w)"
  and socketAddresses_putConn [simp]: "socketAddresses (putConn k c w) = socketAddresses w"
  and connQueue_putConn [simp]: "connQueue (putConn k c w) = connQueue w"
  by (simp_all add: putConn_def)

lemma trace_closeConn [simp]: "trace (closeConn k s err w) = trace w @ [CloseConn k s err]"
  and connections_closeConn [simp]: "connections (closeConn k s err w) = AList.delete k (connections w)"
  and socketAddresses_closeConn [simp]: "socketAddresses (closeConn k s err w) = socketAddresses w"
  by (simp_all add: closeConn_def)

lemma getFd_update [simp]: "getFd (AList.update k c cm) k' = (if k' = k then Some c else getFd cm k')"
  by (simp add: getFd_def update_conv')

lemma getFd_delete [simp]: "getFd (AList.delete k cm) k' = (if k' = k then None else getFd cm k')"
  by (simp add: getFd_def delete_conv')

text \<open>
  Claim C2. For a connection in the closing state \<open>handleConn\<close> dispatches on the flag
  of the tag: with the close flag it calls \<open>closeConn(conn, false, nil)\<close> and nothing
  else, after which the connection is no longer in the registry; with the write-data flag
  (and no close flag) it records the bytes written, marks the buffers user-owned and
  fires on-write with the byte count of the completion, and submits no next request.
\<close>

theorem closing_connection_dispatch:
  assumes "state conn = connClose"
  shows "(hasFlag (userData cqe) closeConnFlag \<longrightarrow>
            handleConn e k conn cqe w = closeConn k False None w
          \<and> trace (handleConn e k conn cqe w) = trace w @ [CloseConn k False None]
          \<and> getFd (connections (handleConn e k conn cqe w)) k = None)
       \<and> (\<not> hasFlag (userData cqe) closeConnFlag \<and> hasFlag (userData cqe) writeDataFlag \<longrightarrow>
            trace (handleConn e k conn cqe w)
            = trace w @ [OnKernelWrite k (sint (res cqe)),
                         LogDebugBytesWrited (fd conn) (sint (res cqe)),
                         OnWrite k (sint (res cqe))]
          \<and> getFd (connections (handleConn e k conn cqe w)) k = Some (conn\<lparr>userSpace := True\<rparr>)
          \<and> AddNextRequest k \<notin> set (drop (length (trace w)) (trace (handleConn e k conn cqe w))))"
  using assms by (simp add: handleConn_def Let_def setUserSpace_def)

text \<open>
  Claim C8. For a tracked connection whose state is none of \<open>connRead\<close>,
  \<open>connWrite\<close>, \<open>connClose\<close>, \<open>handleConn\<close> logs the unknown-connection-state
  error and calls \<open>closeConn(conn, true, err)\<close>, and does nothing else; the handler of
  the loop, when it dispatches the event to \<open>handleConn\<close>, returns no error.
\<close>

theorem unknown_state_closes_connection:
  assumes "state conn \<noteq> connRead" and "state conn \<noteq> connWrite" and "state conn \<noteq> connClose"
  shows "trace (handleConn e k conn cqe w)
         = trace w @ [LogError (Some (ErrorUnknownConnectionState (state conn))) [],
                      CloseConn k True (Some (ErrorUnknownConnectionState (state conn)))]
       \<and> handleConn e k conn cqe w
         = closeConn k True (Some (ErrorUnknownConnectionState (state conn)))
             (logError (Some (ErrorUnknownConnectionState (state conn))) [] w)
       \<and> (\<not> processEvent e cqe (get (connections w) (plainFd (userData cqe)) 0 = None)
          \<and> \<not> hasFlag (userData cqe) addConnFlag
          \<and> \<not> plainFd (userData cqe) < syscall_Stderr
          \<and> getFd (connections w) (plainFd (userData cqe)) = Some conn
          \<longrightarrow> loopHandler e cqe w = (None, handleConn e (plainFd (userData cqe)) conn cqe w))"
  using assms by (cases "state conn") (simp_all add: handleConn_def Let_def logError_def loopHandler_def)

text \<open>
  Claim C9, as amended. For a completion event that \<open>processEvent\<close> does not exit on,
  that does not carry the added-connection flag and whose flag-masked descriptor is below
  \<open>syscall.Stderr\<close>, the handler of the loop logs "Invalid file descriptor" and returns
  no error, and does nothing else: the registry, the address map and the queue are as
  before.
\<close>

theorem invalid_descriptor_dropped:
  assumes "\<not> processEvent e cqe (get (connections w) (plainFd (userData cqe)) 0 = None)"
    and "\<not> hasFlag (userData cqe) addConnFlag"
    and "plainFd (userData cqe) < syscall_Stderr"
  shows "loopHandler e cqe w
         = (None, emit (LogErrorFd (plainFd (userData cqe)) ''Invalid file descriptor'') w)
       \<and> connections (snd (loopHandler e cqe w)) = connections w
       \<and> socketAddresses (snd (loopHandler e cqe w)) = socketAddresses w
       \<and> connQueue (snd (loopHandler e cqe w)) = connQueue w
       \<and> trace (snd (loopHandler e cqe w))
         = trace w @ [LogErrorFd (plainFd (userData cqe)) ''Invalid file descriptor'']"
  using assms by (simp add: loopHandler_def Let_def)

lemma getConnFromQueue_found:
  assumes "getFd (connections w) d = Some conn" and "socketAddresses w d = Some remote"
  shows "connections (getConnFromQueue e d w)
           = AList.update d
               (conn\<lparr>fd := d, localAddr := workerLocalAddr w, remoteAddr := remote,
                     userSpace := True\<rparr>) (connections w)"
    and "socketAddresses (getConnFromQueue e d w) = (socketAddresses w)(d := None)"
    and "take (length (trace w) + 2) (trace (getConnFromQueue e d w))
           = trace w @ [OnAccept d, AddNextRequest d]"
    and "drop (length (trace w) + 2) (trace (getConnFromQueue e d w)) = []
         \<or> (\<exists>er. drop (length (trace w) + 2) (trace (getConnFromQueue e d w))
                  = [LogError (Some er) ''add request error''])"
    and "workerLocalAddr (getConnFromQueue e d w) = workerLocalAddr w"
  using assms
  by (auto simp: getConnFromQueue_def Let_def setUserSpace_def putConn_def emit_def logError_def
      split: option.splits)

lemma getConnFromQueue_miss:
  assumes "getFd (connections w) d = Some conn" and "socketAddresses w d = None"
  shows "connections (getConnFromQueue e d w)
           = AList.update d
               (conn\<lparr>fd := d, localAddr := workerLocalAddr w, userSpace := True\<rparr>)
               (connections w)"
    and "socketAddresses (getConnFromQueue e d w) = socketAddresses w"
    and "take (length (trace w) + 3) (trace (getConnFromQueue e d w))
           = trace w @ [LogError (Some (ErrorAddressNotFound d)) ''Get new connection error'',
                        OnAccept d, AddNextRequest d]"
    and "drop (length (trace w) + 3) (trace (getConnFromQueue e d w)) = []
         \<or> (\<exists>er. drop (length (trace w) + 3) (trace (getConnFromQueue e d w))
                  = [LogError (Some er) ''add request error''])"
    and "workerLocalAddr (getConnFromQueue e d w) = workerLocalAddr w"
  using assms
  by (auto simp: getConnFromQueue_def Let_def setUserSpace_def putConn_def emit_def logError_def
      split: option.splits)

lemma loopHandler_addConn_found:
  assumes "\<not> processEvent e cqe (get (connections w) (plainFd (userData cqe)) 0 = None)"
    and "hasFlag (userData cqe) addConnFlag"
    and "getFd (connections w) (sint (res cqe)) = Some conn"
    and "socketAddresses w (sint (res cqe)) = Some remote"
  shows "snd (loopHandler e cqe w)
           = w\<lparr>connections :=
                  AList.update (sint (res cqe))
                    (conn\<lparr>fd := sint (res cqe), localAddr := workerLocalAddr w, remoteAddr := remote,
                          userSpace := True\<rparr>) (connections w),
                socketAddresses := (socketAddresses w)(sint (res cqe) := None),
                trace := trace w @ [OnAccept (sint (res cqe)), AddNextRequest (sint (res cqe))]\<rparr>"
  using assms
  by (simp add: loopHandler_def Let_def setUserSpace_def putConn_def emit_def)

lemma loopHandler_addConn_miss:
  assumes "\<not> processEvent e cqe (get (connections w) (plainFd (userData cqe)) 0 = None)"
    and "hasFlag (userData cqe) addConnFlag"
    and "getFd (connections w) (sint (res cqe)) = Some conn"
    and "socketAddresses w (sint (res cqe)) = None"
  shows "snd (loopHandler e cqe w)
           = w\<lparr>connections :=
                  AList.update (sint (res cqe))
                    (conn\<lparr>fd := sint (res cqe), localAddr := workerLocalAddr w, userSpace := True\<rparr>)
                    (connections w),
                trace := trace w @ [LogError (Some (ErrorAddressNotFound (sint (res cqe))))
                                      ''Get new connection error'',
                                    OnAccept (sint (res cqe)), AddNextRequest (sint (res cqe))]\<rparr>"
  using assms
  by (simp add: loopHandler_def Let_def setUserSpace_def putConn_def emit_def logError_def)

lemma get_update_None:
  "getFd cm d = Some c0 \<Longrightarrow> (get (AList.update d c cm) k x = None) = (get cm k x = None)"
  by (auto simp: get_def getFd_def update_conv')

lemma queue_first_claim:
  assumes "getFd (connections w) d = Some conn" and "socketAddresses w d = Some remote"
  shows "map_option remoteAddr (getFd (connections (getConnFromQueue e d w)) d) = Some remote"
    and "socketAddresses (getConnFromQueue e d w) = (socketAddresses w)(d := None)"
    and "LogError (Some (ErrorAddressNotFound d)) ''Get new connection error''
           \<notin> set (drop (length (trace w)) (trace (getConnFromQueue e d w)))"
  using assms
  by (auto simp: getConnFromQueue_def Let_def setUserSpace_def putConn_def emit_def logError_def
      split: option.splits)

lemma queue_second_claim:
  assumes "getFd (connections w1) d = Some conn1" and "socketAddresses w1 d = None"
  shows "take (length (trace w1) + 1) (trace (getConnFromQueue e d w1))
           = trace w1 @ [LogError (Some (ErrorAddressNotFound d)) ''Get new connection error'']"
    and "socketAddresses (getConnFromQueue e d w1) = socketAddresses w1"
    and "map_option remoteAddr (getFd (connections (getConnFromQueue e d w1)) d)
           = Some (remoteAddr conn1)"
  using assms
  by (auto simp: getConnFromQueue_def Let_def setUserSpace_def putConn_def emit_def logError_def
      split: option.splits)

lemma ring_first_claim:
  assumes "\<not> processEvent e cqe (get (connections w) (plainFd (userData cqe)) 0 = None)"
    and "hasFlag (userData cqe) addConnFlag"
    and "getFd (connections w) (sint (res cqe)) = Some conn"
    and "socketAddresses w (sint (res cqe)) = Some remote"
  shows "map_option remoteAddr (getFd (connections (snd (loopHandler e cqe w))) (sint (res cqe)))
           = Some remote"
    and "socketAddresses (snd (loopHandler e cqe w)) = (socketAddresses w)(sint (res cqe) := None)"
    and "trace (snd (loopHandler e cqe w))
           = trace w @ [OnAccept (sint (res cqe)), AddNextRequest (sint (res cqe))]"
  using loopHandler_addConn_found[OF assms] by simp_all

lemma ring_second_claim:
  assumes "\<not> processEvent e cqe (get (connections w1) (plainFd (userData cqe)) 0 = None)"
    and "hasFlag (userData cqe) addConnFlag"
    and "getFd (connections w1) (sint (res cqe)) = Some conn1"
    and "socketAddresses w1 (sint (res cqe)) = None"
  shows "trace (snd (loopHandler e cqe w1))
           = trace w1 @ [LogError (Some (ErrorAddressNotFound (sint (res cqe))))
                           ''Get new connection error'',
                         OnAccept (sint (res cqe)), AddNextRequest (sint (res cqe))]"
    and "socketAddresses (snd (loopHandler e cqe w1)) = socketAddresses w1"
    and "map_option remoteAddr (getFd (connections (snd (loopHandler e cqe w1))) (sint (res cqe)))
           = Some (remoteAddr conn1)"
  using loopHandler_addConn_miss[OF assms] by simp_all

text \<open>
  Claim C6. Claiming a handed-off descriptor \<open>d\<close> whose remote address is in the
  address map attaches the address to the connection and deletes the entry, on the
  fallback-queue path and on the added-connection path alike; a second claim of \<open>d\<close>
  finds no entry, logs the address-not-found error, and leaves the map and the remote
  address of the connection as they are.
\<close>

theorem claim_drains_address_entry:
  assumes "getFd (connections w) d = Some conn" and "socketAddresses w d = Some remote"
  shows "(let w1 = getConnFromQueue e d w; w2 = getConnFromQueue e d w1 in
            map_option remoteAddr (getFd (connections w1) d) = Some remote
          \<and> socketAddresses w1 = (socketAddresses w)(d := None)
          \<and> LogError (Some (ErrorAddressNotFound d)) ''Get new connection error''
               \<notin> set (drop (length (trace w)) (trace w1))
          \<and> take (length (trace w1) + 1) (trace w2)
               = trace w1 @ [LogError (Some (ErrorAddressNotFound d)) ''Get new connection error'']
          \<and> socketAddresses w2 = socketAddresses w1
          \<and> map_option remoteAddr (getFd (connections w2) d) = Some remote)
       \<and> (hasFlag (userData cqe) addConnFlag \<and> sint (res cqe) = d
            \<and> \<not> processEvent e cqe (get (connections w) (plainFd (userData cqe)) 0 = None)
          \<longrightarrow>
          (let w1 = snd (loopHandler e cqe w); w2 = snd (loopHandler e cqe w1) in
            map_option remoteAddr (getFd (connections w1) d) = Some remote
          \<and> socketAddresses w1 = (socketAddresses w)(d := None)
          \<and> trace w1 = trace w @ [OnAccept d, AddNextRequest d]
          \<and> trace w2
               = trace w1 @ [LogError (Some (ErrorAddressNotFound d)) ''Get new connection error'',
                             OnAccept d, AddNextRequest d]
          \<and> socketAddresses w2 = socketAddresses w1
          \<and> map_option remoteAddr (getFd (connections w2) d) = Some remote))"
proof -
  let ?q1 = "getConnFromQueue e d w"
  note q1 = queue_first_claim[OF assms, of e]
  from q1(1) obtain c1 where c1: "getFd (connections ?q1) d = Some c1" "remoteAddr c1 = remote"
    by (cases "getFd (connections ?q1) d") auto
  have m1: "socketAddresses ?q1 d = None" by (simp add: q1(2))
  note q2 = queue_second_claim[OF c1(1) m1, of e]
  have queue: "let w1 = getConnFromQueue e d w; w2 = getConnFromQueue e d w1 in
            map_option remoteAddr (getFd (connections w1) d) = Some remote
          \<and> socketAddresses w1 = (socketAddresses w)(d := None)
          \<and> LogError (Some (ErrorAddressNotFound d)) ''Get new connection error''
               \<notin> set (drop (length (trace w)) (trace w1))
          \<and> take (length (trace w1) + 1) (trace w2)
               = trace w1 @ [LogError (Some (ErrorAddressNotFound d)) ''Get new connection error'']
          \<and> socketAddresses w2 = socketAddresses w1
          \<and> map_option remoteAddr (getFd (connections w2) d) = Some remote"
    unfolding Let_def using q1 q2 c1(2) by simp
  have ring: "let w1 = snd (loopHandler e cqe w); w2 = snd (loopHandler e cqe w1) in
            map_option remoteAddr (getFd (connections w1) d) = Some remote
          \<and> socketAddresses w1 = (socketAddresses w)(d := None)
          \<and> trace w1 = trace w @ [OnAccept d, AddNextRequest d]
          \<and> trace w2
               = trace w1 @ [LogError (Some (ErrorAddressNotFound d)) ''Get new connection error'',
                             OnAccept d, AddNextRequest d]
          \<and> socketAddresses w2 = socketAddresses w1
          \<and> map_option remoteAddr (getFd (connections w2) d) = Some remote"
    if f: "hasFlag (userData cqe) addConnFlag" and r: "sint (res cqe) = d"
      and p0: "\<not> processEvent e cqe (get (connections w) (plainFd (userData cqe)) 0 = None)"
  proof -
    let ?r1 = "snd (loopHandler e cqe w)"
    have a: "getFd (connections w) (sint (res cqe)) = Some conn"
      "socketAddresses w (sint (res cqe)) = Some remote" using assms r by simp_all
    note r1 = ring_first_claim[OF p0 f a, unfolded r]
    from r1(1) obtain c1 where c1: "getFd (connections ?r1) (sint (res cqe)) = Some c1" "remoteAddr c1 = remote"
      by (cases "getFd (connections ?r1) d") (auto simp: r)
    have m1: "socketAddresses ?r1 (sint (res cqe)) = None" by (simp add: r1(2) r)
    have p1: "\<not> processEvent e cqe (get (connections ?r1) (plainFd (userData cqe)) 0 = None)"
      using p0 by (simp add: loopHandler_addConn_found[OF p0 f a] get_update_None[OF a(1)])
    note r2 = ring_second_claim[OF p1 f c1(1) m1, unfolded r]
    show ?thesis unfolding Let_def using r1 r2 c1(2) by simp
  qed
  from queue ring show ?thesis by blast
qed

text \<open>
  Claim C7, as amended. When the remote address of a descriptor taken from the fallback
  queue is not in the address map, the miss is logged and the claim goes on: the buffers
  are marked user-owned, on-accept is fired and the next request is submitted; the remote
  address of the connection is left as it was (absent if it was absent before), the
  connection is not closed, and the loop goes on with the rest of the queue.
\<close>

theorem handoff_miss_tolerated:
  assumes "getFd (connections w) d = Some conn" and "socketAddresses w d = None"
  shows "take (length (trace w) + 3) (trace (getConnFromQueue e d w))
           = trace w @ [LogError (Some (ErrorAddressNotFound d)) ''Get new connection error'',
                        OnAccept d, AddNextRequest d]
       \<and> (drop (length (trace w) + 3) (trace (getConnFromQueue e d w)) = []
          \<or> (\<exists>er. drop (length (trace w) + 3) (trace (getConnFromQueue e d w))
                   = [LogError (Some er) ''add request error'']))
       \<and> getFd (connections (getConnFromQueue e d w)) d
           = Some (conn\<lparr>fd := d, localAddr := workerLocalAddr w, userSpace := True\<rparr>)
       \<and> map_option remoteAddr (getFd (connections (getConnFromQueue e d w)) d)
           = Some (remoteAddr conn)
       \<and> (remoteAddr conn = None \<longrightarrow>
            map_option remoteAddr (getFd (connections (getConnFromQueue e d w)) d) = Some None)
       \<and> socketAddresses (getConnFromQueue e d w) = socketAddresses w
       \<and> getConnsFromQueueLoop e (d # q) w
           = getConnsFromQueueLoop e q (getConnFromQueue e d (w\<lparr>connQueue := Some q\<rparr>))"
  using getConnFromQueue_miss[OF assms, of e] by simp

lemma closeCallback_effect:
  "connections (snd (closeCallback e k w)) = connections w"
  "shutdownRequested (snd (closeCallback e k w)) = shutdownRequested w"
  "shutdownInProgress (snd (closeCallback e k w)) = shutdownInProgress w"
  "\<exists>evs. trace (snd (closeCallback e k w)) = trace w @ AddCloseConnRequest k # evs
         \<and> (evs = [] \<or> (\<exists>er. evs = [LogError (Some er) ''Add close() connection request error'']))"
  "fst (closeCallback e k w) = (addCloseConnRequest e k w = None)"
  by (auto simp: closeCallback_def Let_def logError_def emit_def split: option.splits)

lemma closeCallback_failure:
  "addCloseConnRequest e k w = Some er \<Longrightarrow>
     trace (snd (closeCallback e k w))
     = trace w @ [AddCloseConnRequest k, LogError (Some er) ''Add close() connection request error'']"
  by (simp add: closeCallback_def Let_def logError_def)

lemma connectionManager_close_effect:
  "connections (connectionManager_close (closeCallback e) a ks w) = connections w
   \<and> shutdownRequested (connectionManager_close (closeCallback e) a ks w) = shutdownRequested w
   \<and> shutdownInProgress (connectionManager_close (closeCallback e) a ks w) = shutdownInProgress w
   \<and> (\<exists>evs. trace (connectionManager_close (closeCallback e) a ks w) = trace w @ evs
         \<and> filter isAddCloseConnRequest evs = map AddCloseConnRequest ks
         \<and> NotifyFinish \<notin> set evs)"
proof (induction ks arbitrary: w)
  case Nil
  show ?case by simp
next
  case (Cons k ks)
  let ?w1 = "snd (closeCallback e k w)"
  from closeCallback_effect(4)[of e k w] obtain evs1 where
    t1: "trace ?w1 = trace w @ AddCloseConnRequest k # evs1"
    and e1: "evs1 = [] \<or> (\<exists>er. evs1 = [LogError (Some er) ''Add close() connection request error''])"
    by blast
  from Cons.IH[of ?w1] obtain evs2 where
    t2: "trace (connectionManager_close (closeCallback e) a ks ?w1) = trace ?w1 @ evs2"
    and f2: "filter isAddCloseConnRequest evs2 = map AddCloseConnRequest ks"
    and n2: "NotifyFinish \<notin> set evs2"
    by blast
  have f1: "filter isAddCloseConnRequest evs1 = []" "NotifyFinish \<notin> set evs1" using e1 by auto
  have "trace (connectionManager_close (closeCallback e) a (k # ks) w)
        = trace w @ (AddCloseConnRequest k # evs1 @ evs2)"
    by (simp add: t1 t2)
  moreover have "filter isAddCloseConnRequest (AddCloseConnRequest k # evs1 @ evs2)
        = map AddCloseConnRequest (k # ks)"
    using f1 f2 by simp
  moreover have "NotifyFinish \<notin> set (AddCloseConnRequest k # evs1 @ evs2)"
    using f1 n2 by simp
  ultimately show ?case
    using Cons.IH[of ?w1] by (auto simp: closeCallback_effect)
qed

lemma withoutNotifyFinish_refl: "withoutNotifyFinish w w"
  by (simp add: withoutNotifyFinish_def)

lemma withoutNotifyFinish_trans: "withoutNotifyFinish w w1 \<Longrightarrow> withoutNotifyFinish w1 w2 \<Longrightarrow> withoutNotifyFinish w w2"
  by (auto simp: withoutNotifyFinish_def)

lemma handleConn_withoutNotifyFinish: "withoutNotifyFinish w (handleConn e k conn cqe w)"
  by (cases "state conn")
     (auto simp: withoutNotifyFinish_def handleConn_def Let_def logError_def split: option.splits)

lemma getConnFromQueue_withoutNotifyFinish: "withoutNotifyFinish w (getConnFromQueue e d w)"
  by (auto simp: withoutNotifyFinish_def getConnFromQueue_def Let_def logError_def emit_def putConn_def
      split: option.splits)

lemma getConnsFromQueueLoop_withoutNotifyFinish: "withoutNotifyFinish w (getConnsFromQueueLoop e q w)"
proof (induction q arbitrary: w)
  case Nil
  show ?case by (simp add: withoutNotifyFinish_refl)
next
  case (Cons d q)
  have "withoutNotifyFinish w (w\<lparr>connQueue := Some q\<rparr>)" by (simp add: withoutNotifyFinish_def)
  then have "withoutNotifyFinish w (getConnFromQueue e d (w\<lparr>connQueue := Some q\<rparr>))"
    using getConnFromQueue_withoutNotifyFinish withoutNotifyFinish_trans by blast
  then have "withoutNotifyFinish w (getConnsFromQueueLoop e q (getConnFromQueue e d (w\<lparr>connQueue := Some q\<rparr>)))"
    using Cons.IH by (rule withoutNotifyFinish_trans)
  then show ?case by simp
qed

lemma handleJobsInQueues_withoutNotifyFinish: "withoutNotifyFinish w (handleJobsInQueues e w)"
proof -
  have "withoutNotifyFinish w (case connQueue w of None \<Rightarrow> w | Some q \<Rightarrow> getConnsFromQueueLoop e q w)"
    by (simp add: withoutNotifyFinish_refl getConnsFromQueueLoop_withoutNotifyFinish split: option.splits)
  then show ?thesis
    by (auto simp: handleJobsInQueues_def Let_def withoutNotifyFinish_def)
qed

lemma loopHandler_withoutNotifyFinish: "withoutNotifyFinish w (snd (loopHandler e cqe w))"
  using handleConn_withoutNotifyFinish[of w e "plainFd (userData cqe)" _ cqe]
  by (auto simp: loopHandler_def Let_def withoutNotifyFinish_refl withoutNotifyFinish_def logError_def emit_def putConn_def
      split: option.splits)

text \<open>
  Claim C3. When shutdown is requested and not yet in progress, the shutdown handler
  issues exactly one close request per tracked connection, in the order of the registry
  (as many as there are connections); a failed request is logged and followed by no
  second request; the handler marks shutdown in progress, so that running it again
  issues nothing; completion of the loop is signalled neither by the shutdown handler nor
  by the handler of the completion events nor by the work on the queues, and the finish
  condition holds, and signals completion, exactly when the registry has no connection.
\<close>

theorem shutdown_closes_each_connection_once:
  assumes "shutdownRequested w" and "\<not> shutdownInProgress w"
  shows "(\<exists>evs. trace (snd (shutdownHandler e w)) = trace w @ LogWarn ''Closing connections'' # evs
            \<and> filter isAddCloseConnRequest evs = map AddCloseConnRequest (map fst (connections w))
            \<and> length (filter isAddCloseConnRequest evs) = length (connections w)
            \<and> NotifyFinish \<notin> set evs)
       \<and> (addCloseConnRequest e k w' = Some er \<longrightarrow>
            trace (snd (closeCallback e k w'))
            = trace w' @ [AddCloseConnRequest k,
                          LogError (Some er) ''Add close() connection request error''])
       \<and> shutdownInProgress (snd (shutdownHandler e w))
       \<and> shutdownHandler e (snd (shutdownHandler e w)) = (True, snd (shutdownHandler e w))
       \<and> fst (loopFinishCondition w') = (connections w' = [])
       \<and> (NotifyFinish \<in> set (drop (length (trace w')) (trace (snd (loopFinishCondition w'))))
            \<longleftrightarrow> connections w' = [])
       \<and> withoutNotifyFinish w' (snd (loopHandler e cqe w'))
       \<and> withoutNotifyFinish w' (handleJobsInQueues e w')"
proof -
  let ?w0 = "emit (LogWarn ''Closing connections'') w"
  from connectionManager_close_effect[of e "- 1" "map fst (connections ?w0)" ?w0]
  obtain evs where
    t: "trace (closeAllConns e w) = trace ?w0 @ evs"
    and f: "filter isAddCloseConnRequest evs = map AddCloseConnRequest (map fst (connections w))"
    and n: "NotifyFinish \<notin> set evs"
    and p: "shutdownRequested (closeAllConns e w) = shutdownRequested w"
    by (auto simp: closeAllConns_def Let_def)
  have s: "snd (shutdownHandler e w) = markShutdownInProgress (closeAllConns e w)"
    using assms by (simp add: shutdownHandler_def needToShutdown_def)
  have first: "\<exists>evs. trace (snd (shutdownHandler e w)) = trace w @ LogWarn ''Closing connections'' # evs
            \<and> filter isAddCloseConnRequest evs = map AddCloseConnRequest (map fst (connections w))
            \<and> length (filter isAddCloseConnRequest evs) = length (connections w)
            \<and> NotifyFinish \<notin> set evs"
    using t f n by (intro exI[of _ evs]) (simp add: s markShutdownInProgress_def)
  have prog: "shutdownInProgress (snd (shutdownHandler e w))"
    by (simp add: s markShutdownInProgress_def)
  then have again: "shutdownHandler e (snd (shutdownHandler e w)) = (True, snd (shutdownHandler e w))"
    by (simp add: shutdownHandler_def needToShutdown_def)
  have fin: "fst (loopFinishCondition w') = (connections w' = [])"
    "NotifyFinish \<in> set (drop (length (trace w')) (trace (snd (loopFinishCondition w'))))
            \<longleftrightarrow> connections w' = []"
    by (simp_all add: loopFinishCondition_def allClosed_def)
  from first prog again fin closeCallback_failure[of e k w' er]
    loopHandler_withoutNotifyFinish[of w' e cqe] handleJobsInQueues_withoutNotifyFinish[of w' e]
  show ?thesis by blast
qed

lemma GetSQE_cases:
  "GetSQE r = Inl ErrSQEOverflow \<and> \<not> length (sqEntries r) < sqSize r
   \<or> GetSQE r = Inr (length (sqEntries r), r\<lparr>sqEntries := sqEntries r @ [blankEntry]\<rparr>)
     \<and> length (sqEntries r) < sqSize r"
  by (simp add: GetSQE_def)

text \<open>
  Claim C10. When \<open>addAcceptConnRequest\<close> returns the connection-missing error, the
  ring holds one more entry than before, the accept operation on the listening descriptor
  tagged with the accept flag and that descriptor: the submission is not rolled back.
\<close>

theorem accept_request_stays_enqueued:
  assumes "fst (addAcceptConnRequest a) = Some ErrConnectionIsMissing"
  shows "sqEntries (acceptorRing (snd (addAcceptConnRequest a)))
           = sqEntries (acceptorRing a)
             @ [\<lparr>opcode = OpAccept, sqeFd = acceptorFd a, opFlags = 0,
                 UserData = composeTag acceptDataFlag (acceptorFd a)\<rparr>]
       \<and> getFd (acceptorConnections a) (acceptorFd a) = None
       \<and> acceptorConnections (snd (addAcceptConnRequest a)) = acceptorConnections a
       \<and> length (sqEntries (acceptorRing a)) < sqSize (acceptorRing a)"
  using assms GetSQE_cases[of "acceptorRing a"]
  by (auto simp: addAcceptConnRequest_def addAcceptRequest_def Let_def PrepareAccept_def
        blankEntry_def composeTag_def split: option.splits sum.splits prod.splits)

lemma accept_missing_returns:
  assumes "length (sqEntries (acceptorRing a)) < sqSize (acceptorRing a)"
    and "getFd (acceptorConnections a) (acceptorFd a) = None"
  shows "fst (addAcceptConnRequest a) = Some ErrConnectionIsMissing"
  using assms
  by (simp add: addAcceptConnRequest_def addAcceptRequest_def Let_def GetSQE_def)

subsection \<open>Concrete runs\<close>

lemma validFd_small: "validFd 1" "validFd 3" "validFd 5" "validFd 6"
  by (simp_all add: validFd_def)

lemma flags_member:
  "acceptDataFlag \<in> set definedFlags" "addConnFlag \<in> set definedFlags"
  "closeConnFlag \<in> set definedFlags" "writeDataFlag \<in> set definedFlags"
  by (simp_all add: definedFlags_def)

lemma flags_differ:
  "writeDataFlag \<noteq> closeConnFlag" "closeConnFlag \<noteq> addConnFlag" "writeDataFlag \<noteq> addConnFlag"
  "acceptDataFlag \<noteq> addConnFlag"
  by (simp_all add: acceptDataFlag_def addConnFlag_def closeConnFlag_def writeDataFlag_def)

lemma plainFd_composeTag:
  assumes "validFd d" and "f \<in> set definedFlags"
  shows "plainFd (composeTag f d) = d"
  unfolding plainFd_def composeTag_def mask_fd[OF assms] by (rule sint_fd[OF assms(1)])

theorem closing_connection_dispatch_witness:
  "state (sampleConn 5 connClose) = connClose
   \<and> hasFlag (composeTag closeConnFlag 5) closeConnFlag
   \<and> trace (handleConn sampleEnv 5 (sampleConn 5 connClose)
              \<lparr>res = 0, userData = composeTag closeConnFlag 5\<rparr> sampleWorker)
     = [CloseConn 5 False None]
   \<and> getFd (connections (handleConn sampleEnv 5 (sampleConn 5 connClose)
              \<lparr>res = 0, userData = composeTag closeConnFlag 5\<rparr> sampleWorker)) 5 = None
   \<and> \<not> hasFlag (composeTag writeDataFlag 5) closeConnFlag
   \<and> hasFlag (composeTag writeDataFlag 5) writeDataFlag
   \<and> trace (handleConn sampleEnv 5 (sampleConn 5 connClose)
              \<lparr>res = 42, userData = composeTag writeDataFlag 5\<rparr> sampleWorker)
     = [OnKernelWrite 5 42, LogDebugBytesWrited 5 42, OnWrite 5 42]"
proof -
  have st: "state (sampleConn 5 connClose) = connClose" by (simp add: sampleConn_def)
  have c: "hasFlag (composeTag closeConnFlag 5) closeConnFlag"
    "\<not> hasFlag (composeTag writeDataFlag 5) closeConnFlag"
    "hasFlag (composeTag writeDataFlag 5) writeDataFlag"
    using flag_test[OF validFd_small(3)] flags_member flags_differ by simp_all
  have t: "trace sampleWorker = []" "fd (sampleConn 5 connClose) = 5"
    by (simp_all add: sampleWorker_def sampleConn_def)
  from closing_connection_dispatch[OF st, of "\<lparr>res = 0, userData = composeTag closeConnFlag 5\<rparr>" sampleEnv 5 sampleWorker]
    closing_connection_dispatch[OF st, of "\<lparr>res = 42, userData = composeTag writeDataFlag 5\<rparr>" sampleEnv 5 sampleWorker]
    st c t
  show ?thesis by simp
qed

theorem unknown_state_closes_connection_witness:
  "state (sampleConn 6 connAccept) \<noteq> connRead \<and> state (sampleConn 6 connAccept) \<noteq> connWrite
   \<and> state (sampleConn 6 connAccept) \<noteq> connClose
   \<and> trace (handleConn sampleEnv 6 (sampleConn 6 connAccept)
              \<lparr>res = 0, userData = composeTag acceptDataFlag 6\<rparr> sampleWorker)
     = [LogError (Some (ErrorUnknownConnectionState connAccept)) [],
        CloseConn 6 True (Some (ErrorUnknownConnectionState connAccept))]
   \<and> loopHandler sampleEnv \<lparr>res = 0, userData = composeTag acceptDataFlag 6\<rparr> sampleWorker
     = (None, handleConn sampleEnv 6 (sampleConn 6 connAccept)
                \<lparr>res = 0, userData = composeTag acceptDataFlag 6\<rparr> sampleWorker)"
proof -
  let ?cqe = "\<lparr>res = 0, userData = composeTag acceptDataFlag 6\<rparr>"
  have st: "state (sampleConn 6 connAccept) \<noteq> connRead" "state (sampleConn 6 connAccept) \<noteq> connWrite"
    "state (sampleConn 6 connAccept) \<noteq> connClose"
    by (simp_all add: sampleConn_def)
  have sa: "state (sampleConn 6 connAccept) = connAccept" "trace sampleWorker = []"
    by (simp_all add: sampleConn_def sampleWorker_def)
  have p: "plainFd (userData ?cqe) = 6"
    using plainFd_composeTag[OF validFd_small(4) flags_member(1)] by simp
  have f: "\<not> hasFlag (userData ?cqe) addConnFlag"
    using flag_test[OF validFd_small(4) flags_member(1) flags_member(2)] flags_differ by simp
  have g: "getFd (connections sampleWorker) (plainFd (userData ?cqe)) = Some (sampleConn 6 connAccept)"
    unfolding p by (simp add: sampleWorker_def getFd_def)
  have pe: "\<not> processEvent sampleEnv ?cqe (get (connections sampleWorker) (plainFd (userData ?cqe)) 0 = None)"
    unfolding p by (simp add: sampleEnv_def processEventSpec_def get_def sampleWorker_def)
  have lt: "\<not> plainFd (userData ?cqe) < syscall_Stderr"
    unfolding p by (simp add: syscall_Stderr_def)
  note t = unknown_state_closes_connection[OF st, of sampleEnv 6 ?cqe sampleWorker]
  from t have t1: "trace (handleConn sampleEnv 6 (sampleConn 6 connAccept) ?cqe sampleWorker)
     = [LogError (Some (ErrorUnknownConnectionState connAccept)) [],
        CloseConn 6 True (Some (ErrorUnknownConnectionState connAccept))]"
    by (simp add: sa logError_def)
  from t pe f lt g have t2: "loopHandler sampleEnv ?cqe sampleWorker
     = (None, handleConn sampleEnv (plainFd (userData ?cqe)) (sampleConn 6 connAccept) ?cqe sampleWorker)"
    by blast
  from st t1 t2[unfolded p] show ?thesis by blast
qed

lemma addConnEvent_facts:
  "plainFd (userData addConnEvent) = 1"
  "hasFlag (userData addConnEvent) addConnFlag"
  "sint (res addConnEvent) = 5"
  "\<not> processEvent sampleEnv addConnEvent
       (get (connections sampleWorker) (plainFd (userData addConnEvent)) 0 = None)"
proof -
  show p: "plainFd (userData addConnEvent) = 1"
    using plainFd_composeTag[OF validFd_small(1) flags_member(2)] by (simp add: addConnEvent_def)
  show "hasFlag (userData addConnEvent) addConnFlag"
    using flag_test[OF validFd_small(1) flags_member(2) flags_member(2)] by (simp add: addConnEvent_def)
  show "sint (res addConnEvent) = 5" by (simp add: addConnEvent_def)
  show "\<not> processEvent sampleEnv addConnEvent
       (get (connections sampleWorker) (plainFd (userData addConnEvent)) 0 = None)"
    by (simp add: p sampleEnv_def processEventSpec_def get_def sampleWorker_def)
qed

text \<open>
  Claim C9 as stated fails for an event with the added-connection flag: the flag is
  tested before the descriptor, so the event is claimed through its result code although
  its flag-masked descriptor, 1, is below \<open>syscall.Stderr\<close>.
\<close>

theorem added_connection_event_below_stderr_is_claimed:
  "plainFd (userData addConnEvent) < syscall_Stderr
   \<and> trace (snd (loopHandler sampleEnv addConnEvent sampleWorker))
     = [OnAccept 5, AddNextRequest 5]
   \<and> getFd (connections (snd (loopHandler sampleEnv addConnEvent sampleWorker))) 5
     = Some \<lparr>fd = 5, state = connClose, localAddr = Some ''0.0.0.0:8080'',
             remoteAddr = Some ''10.0.0.7:4242'', userSpace = True\<rparr>
   \<and> getFd (connections sampleWorker) 5 = Some (sampleConn 5 connClose)
   \<and> socketAddresses (snd (loopHandler sampleEnv addConnEvent sampleWorker)) 5 = None
   \<and> socketAddresses sampleWorker 5 = Some (Some ''10.0.0.7:4242'')"
proof -
  have g: "getFd (connections sampleWorker) (sint (res addConnEvent)) = Some (sampleConn 5 connClose)"
    "socketAddresses sampleWorker (sint (res addConnEvent)) = Some (Some ''10.0.0.7:4242'')"
    by (simp_all add: addConnEvent_facts(3) sampleWorker_def getFd_def)
  from loopHandler_addConn_found[OF addConnEvent_facts(4) addConnEvent_facts(2) g] g
  show ?thesis
    by (simp add: addConnEvent_facts syscall_Stderr_def sampleWorker_def sampleConn_def getFd_def)
qed

theorem invalid_descriptor_dropped_witness:
  "\<not> processEvent sampleEnv \<lparr>res = 0, userData = composeTag closeConnFlag 1\<rparr>
       (get (connections sampleWorker)
          (plainFd (userData \<lparr>res = 0, userData = composeTag closeConnFlag 1\<rparr>)) 0 = None)
   \<and> \<not> hasFlag (userData \<lparr>res = 0, userData = composeTag closeConnFlag 1\<rparr>) addConnFlag
   \<and> plainFd (userData \<lparr>res = 0, userData = composeTag closeConnFlag 1\<rparr>) < syscall_Stderr
   \<and> loopHandler sampleEnv \<lparr>res = 0, userData = composeTag closeConnFlag 1\<rparr> sampleWorker
     = (None, emit (LogErrorFd 1 ''Invalid file descriptor'') sampleWorker)"
proof -
  let ?cqe = "\<lparr>res = 0, userData = composeTag closeConnFlag 1\<rparr>"
  have p: "plainFd (composeTag closeConnFlag 1) = 1"
    by (rule plainFd_composeTag[OF validFd_small(1) flags_member(3)])
  have f: "\<not> hasFlag (userData ?cqe) addConnFlag"
    using flag_test[OF validFd_small(1) flags_member(3) flags_member(2)] flags_differ by simp
  have pe: "\<not> processEvent sampleEnv ?cqe (get (connections sampleWorker) (plainFd (userData ?cqe)) 0 = None)"
    by (simp add: p sampleEnv_def processEventSpec_def get_def sampleWorker_def)
  have lt: "plainFd (userData ?cqe) < syscall_Stderr" by (simp add: p syscall_Stderr_def)
  from invalid_descriptor_dropped[OF pe f lt] pe f lt p show ?thesis by simp
qed

lemma sampleWorker_fields:
  "getFd (connections sampleWorker) 5 = Some (sampleConn 5 connClose)"
  "getFd (connections sampleWorker) 6 = Some (sampleConn 6 connAccept)"
  "socketAddresses sampleWorker 5 = Some (Some ''10.0.0.7:4242'')"
  "socketAddresses sampleWorker 6 = None"
  "trace sampleWorker = []"
  "shutdownRequested sampleWorker"
  "\<not> shutdownInProgress sampleWorker"
  "connections sampleWorker
     = [(1, sampleConn 1 connRead), (5, sampleConn 5 connClose), (6, sampleConn 6 connAccept)]"
  by (simp_all add: sampleWorker_def getFd_def)

theorem claim_drains_address_entry_witness:
  "getFd (connections sampleWorker) 5 = Some (sampleConn 5 connClose)
   \<and> socketAddresses sampleWorker 5 = Some (Some ''10.0.0.7:4242'')
   \<and> hasFlag (userData addConnEvent) addConnFlag \<and> sint (res addConnEvent) = 5
   \<and> \<not> processEvent sampleEnv addConnEvent
         (get (connections sampleWorker) (plainFd (userData addConnEvent)) 0 = None)
   \<and> socketAddresses (getConnFromQueue sampleEnv 5 sampleWorker) 5 = None
   \<and> map_option remoteAddr (getFd (connections (getConnFromQueue sampleEnv 5 sampleWorker)) 5)
     = Some (Some ''10.0.0.7:4242'')
   \<and> trace (getConnFromQueue sampleEnv 5 (getConnFromQueue sampleEnv 5 sampleWorker))
     = [OnAccept 5, AddNextRequest 5,
        LogError (Some (ErrorAddressNotFound 5)) ''Get new connection error'',
        OnAccept 5, AddNextRequest 5]
   \<and> trace (snd (loopHandler sampleEnv addConnEvent
                (snd (loopHandler sampleEnv addConnEvent sampleWorker))))
     = [OnAccept 5, AddNextRequest 5,
        LogError (Some (ErrorAddressNotFound 5)) ''Get new connection error'',
        OnAccept 5, AddNextRequest 5]"
proof -
  note h = sampleWorker_fields(1) sampleWorker_fields(3)
  note a = addConnEvent_facts(2) addConnEvent_facts(3) addConnEvent_facts(4)
  note t = claim_drains_address_entry[OF h, of sampleEnv addConnEvent, unfolded Let_def]
  from t have q: "socketAddresses (getConnFromQueue sampleEnv 5 sampleWorker) 5 = None"
    "map_option remoteAddr (getFd (connections (getConnFromQueue sampleEnv 5 sampleWorker)) 5)
     = Some (Some ''10.0.0.7:4242'')"
    by simp_all
  from t a have r: "trace (snd (loopHandler sampleEnv addConnEvent
                (snd (loopHandler sampleEnv addConnEvent sampleWorker))))
     = [OnAccept 5, AddNextRequest 5,
        LogError (Some (ErrorAddressNotFound 5)) ''Get new connection error'',
        OnAccept 5, AddNextRequest 5]"
    by (simp add: sampleWorker_fields(5))
  have e: "trace (getConnFromQueue sampleEnv 5 (getConnFromQueue sampleEnv 5 sampleWorker))
     = [OnAccept 5, AddNextRequest 5,
        LogError (Some (ErrorAddressNotFound 5)) ''Get new connection error'',
        OnAccept 5, AddNextRequest 5]"
    by (simp add: getConnFromQueue_def sampleWorker_def sampleEnv_def sampleConn_def getFd_def
          Let_def setUserSpace_def putConn_def emit_def logError_def)
  from h a q r e show ?thesis by blast
qed

text \<open>
  Claim C7 as stated fails for a connection that has a remote address already: after a
  first claim of descriptor 5 its entry is gone from the map, a second claim of 5 misses,
  is logged and goes on, and the connection keeps the address of the first claim instead
  of having none.
\<close>

theorem handoff_miss_keeps_earlier_address:
  "socketAddresses (getConnFromQueue sampleEnv 5 sampleWorker) 5 = None
   \<and> getFd (connections (getConnFromQueue sampleEnv 5 sampleWorker)) 5
     = Some \<lparr>fd = 5, state = connClose, localAddr = Some ''0.0.0.0:8080'',
             remoteAddr = Some ''10.0.0.7:4242'', userSpace = True\<rparr>
   \<and> trace (getConnFromQueue sampleEnv 5 (getConnFromQueue sampleEnv 5 sampleWorker))
     = [OnAccept 5, AddNextRequest 5,
        LogError (Some (ErrorAddressNotFound 5)) ''Get new connection error'',
        OnAccept 5, AddNextRequest 5]
   \<and> map_option remoteAddr
        (getFd (connections (getConnFromQueue sampleEnv 5
                               (getConnFromQueue sampleEnv 5 sampleWorker))) 5)
     = Some (Some ''10.0.0.7:4242'')
   \<and> map_option remoteAddr
        (getFd (connections (getConnFromQueue sampleEnv 5
                               (getConnFromQueue sampleEnv 5 sampleWorker))) 5)
     \<noteq> Some None"
  by (simp add: getConnFromQueue_def sampleWorker_def sampleEnv_def sampleConn_def getFd_def
        Let_def setUserSpace_def putConn_def emit_def logError_def)

text \<open>A connection without a remote address, claimed from the queue with no entry in the map.\<close>

theorem handoff_miss_tolerated_witness:
  "getFd (connections sampleWorker) 6 = Some (sampleConn 6 connAccept)
   \<and> socketAddresses sampleWorker 6 = None
   \<and> remoteAddr (sampleConn 6 connAccept) = None
   \<and> trace (getConnFromQueue sampleEnv 6 sampleWorker)
     = [LogError (Some (ErrorAddressNotFound 6)) ''Get new connection error'',
        OnAccept 6, AddNextRequest 6]
   \<and> getFd (connections (getConnFromQueue sampleEnv 6 sampleWorker)) 6
     = Some \<lparr>fd = 6, state = connAccept, localAddr = Some ''0.0.0.0:8080'', remoteAddr = None,
             userSpace = True\<rparr>"
proof -
  note h = sampleWorker_fields(2) sampleWorker_fields(4)
  have n: "remoteAddr (sampleConn 6 connAccept) = None" by (simp add: sampleConn_def)
  note t = handoff_miss_tolerated[OF h, of sampleEnv]
  from t have c: "getFd (connections (getConnFromQueue sampleEnv 6 sampleWorker)) 6
     = Some \<lparr>fd = 6, state = connAccept, localAddr = Some ''0.0.0.0:8080'', remoteAddr = None,
             userSpace = True\<rparr>"
    by (simp add: sampleConn_def sampleWorker_def)
  have e: "trace (getConnFromQueue sampleEnv 6 sampleWorker)
     = [LogError (Some (ErrorAddressNotFound 6)) ''Get new connection error'',
        OnAccept 6, AddNextRequest 6]"
    by (simp add: getConnFromQueue_def sampleWorker_def sampleEnv_def sampleConn_def getFd_def
          Let_def setUserSpace_def putConn_def emit_def logError_def)
  from h n c e show ?thesis by blast
qed

theorem shutdown_closes_each_connection_once_witness:
  "shutdownRequested sampleWorker \<and> \<not> shutdownInProgress sampleWorker
   \<and> length (connections sampleWorker) = 3
   \<and> trace (snd (shutdownHandler sampleEnv sampleWorker))
     = [LogWarn ''Closing connections'', AddCloseConnRequest 1, AddCloseConnRequest 5,
        AddCloseConnRequest 6,
        LogError (Some (ErrorGettingSQE ErrSQEOverflow)) ''Add close() connection request error'']
   \<and> shutdownHandler sampleEnv (snd (shutdownHandler sampleEnv sampleWorker))
     = (True, snd (shutdownHandler sampleEnv sampleWorker))
   \<and> \<not> fst (loopFinishCondition (snd (shutdownHandler sampleEnv sampleWorker)))"
proof -
  note h = sampleWorker_fields(6) sampleWorker_fields(7)
  note t = shutdown_closes_each_connection_once[OF h, where e = sampleEnv]
  from t have again: "shutdownHandler sampleEnv (snd (shutdownHandler sampleEnv sampleWorker))
     = (True, snd (shutdownHandler sampleEnv sampleWorker))"
    by blast
  have l: "length (connections sampleWorker) = 3" by (simp add: sampleWorker_fields(8))
  have e: "snd (shutdownHandler sampleEnv sampleWorker)
     = sampleWorker\<lparr>shutdownInProgress := True, trace := [LogWarn ''Closing connections'', AddCloseConnRequest 1, AddCloseConnRequest 5,
        AddCloseConnRequest 6,
        LogError (Some (ErrorGettingSQE ErrSQEOverflow)) ''Add close() connection request error'']\<rparr>"
    by (simp add: shutdownHandler_def needToShutdown_def closeAllConns_def Let_def
          closeCallback_def sampleWorker_def sampleEnv_def emit_def logError_def
          markShutdownInProgress_def)
  have f: "\<not> fst (loopFinishCondition (snd (shutdownHandler sampleEnv sampleWorker)))"
    unfolding e by (simp add: loopFinishCondition_def allClosed_def sampleWorker_def)
  from h l again f show ?thesis by (simp add: e)
qed

theorem accept_request_stays_enqueued_witness:
  "fst (addAcceptConnRequest sampleAcceptor) = Some ErrConnectionIsMissing
   \<and> sqEntries (acceptorRing sampleAcceptor) = []
   \<and> sqEntries (acceptorRing (snd (addAcceptConnRequest sampleAcceptor)))
     = [\<lparr>opcode = OpAccept, sqeFd = 3, opFlags = 0, UserData = composeTag acceptDataFlag 3\<rparr>]"
proof -
  have h: "fst (addAcceptConnRequest sampleAcceptor) = Some ErrConnectionIsMissing"
    by (rule accept_missing_returns) (simp_all add: sampleAcceptor_def getFd_def)
  have s: "sqEntries (acceptorRing sampleAcceptor) = []" "acceptorFd sampleAcceptor = 3"
    by (simp_all add: sampleAcceptor_def)
  from accept_request_stays_enqueued[OF h] h s show ?thesis by simp
qed

end
